theory Spec2Isabelle
  imports Complex_Main "HOL-Library.Sublist"
begin

section \<open>Values\<close>

text \<open>
  Python values of type \<open>Any\<close> (search hits, assets, dumped claims, the response
  dictionaries) are JSON-like values. A dictionary is an association list in insertion
  order, read with \<open>map_of\<close>.
\<close>

datatype json =
    JNull
  | JBool bool
  | JNum rat
  | JStr string
  | JArr "json list"
  | JObj "(string \<times> json) list"

type_synonym pydict = "(string \<times> json) list"

text \<open>An exception, carrying the text \<open>str(e)\<close>.\<close>

datatype error = Error string

fun str_of :: "error \<Rightarrow> string" where
  "str_of (Error m) = m"

text \<open>\<open>d.get(key, default)\<close> on a key that may be absent (\<open>None\<close>).\<close>

definition getd :: "'a option \<Rightarrow> 'a \<Rightarrow> 'a" where
  "getd v dflt = (case v of None \<Rightarrow> dflt | Some x \<Rightarrow> x)"

text \<open>\<open>d.get(key)\<close> read for its truth value: an absent key gives \<open>None\<close>, which is false.\<close>

definition truthy :: "bool option \<Rightarrow> bool" where
  "truthy v = (case v of None \<Rightarrow> False | Some b \<Rightarrow> b)"

text \<open>
  The double-precision values of the literals \<open>0.7\<close> and \<open>0.3\<close>, as exact rationals.
  Quality scores are only ever compared with \<open>0.7\<close>.
\<close>

definition float_0_7 :: rat where
  "float_0_7 = 3152519739159347 / 4503599627370496"

definition float_0_3 :: rat where
  "float_0_3 = 5404319552844595 / 18014398509481984"

section \<open>The shared incident record (state.py)\<close>

text \<open>
  \<open>IncidentState\<close> is a \<open>TypedDict\<close> with \<open>total=False\<close>: every key may be absent.
  A field is \<open>None\<close> when its key is absent (for the \<open>Optional\<close> fields, which the code
  only reads with \<open>state.get(key)\<close>, also when the stored value is \<open>None\<close>).
\<close>

record IncidentState =
  incident_id :: "string option"
  query :: "string option"
  channel :: "string option"
  user_role :: "string option"
  text_input :: "string option"
  audio_transcript :: "string option"
  image_embeddings :: "rat list list option"
  location :: "json option"
  retrieved_docs :: "json list option"
  retrieved_images :: "json list option"
  retrieved_sops :: "json list option"
  retrieved_landmarks :: "json list option"
  current_agent :: "string option"
  agent_history :: "string list option"
  iteration_count :: "int option"
  max_iterations :: "int option"
  intent :: "string option"
  initial_assessment :: "string option"
  priority :: "string option"
  incident_type :: "string option"
  recommended_assets :: "json list option"
  resolved_location :: "json option"
  address :: "string option"
  nearby_landmarks :: "string list option"
  recommended_sops :: "json list option"
  critical_instructions :: "string option"
  contraindications :: "string option"
  visual_analysis :: "json option"
  visual_confirmation :: "bool option"
  quality_score :: "rat option"
  gaps_detected :: "string list option"
  grounding_issues :: "string list option"
  reflection_complete :: "bool option"
  grounded_claims :: "json list option"
  confidence :: "json option"
  ambiguities :: "json list option"
  next_agent :: "string option"
  requires_human_approval :: "bool option"
  requires_more_info :: "bool option"
  loop_back_to :: "string option"
  final_recommendation :: "pydict option"
  processing_complete :: "bool option"
  total_processing_time_ms :: "int option"
  total_tokens_consumed :: "int option"
  errors :: "string list option"

definition create_initial_state ::
  "string \<Rightarrow> string \<Rightarrow> string \<Rightarrow> string \<Rightarrow> string \<Rightarrow> json option \<Rightarrow> string option
     \<Rightarrow> rat list list option \<Rightarrow> IncidentState" where
  "create_initial_state iid q txt chan role loc transcript embeddings =
     \<lparr> incident_id = Some iid,
       query = Some q,
       channel = Some chan,
       user_role = Some role,
       text_input = Some txt,
       audio_transcript = transcript,
       image_embeddings = embeddings,
       location = loc,
       retrieved_docs = Some [],
       retrieved_images = Some [],
       retrieved_sops = Some [],
       retrieved_landmarks = Some [],
       current_agent = Some ''supervisor'',
       agent_history = Some [],
       iteration_count = Some 0,
       max_iterations = Some 5,
       intent = None,
       initial_assessment = None,
       priority = Some ''P3'',
       incident_type = Some ''Unknown'',
       recommended_assets = Some [],
       resolved_location = None,
       address = None,
       nearby_landmarks = Some [],
       recommended_sops = Some [],
       critical_instructions = None,
       contraindications = None,
       visual_analysis = None,
       visual_confirmation = None,
       quality_score = None,
       gaps_detected = Some [],
       grounding_issues = Some [],
       reflection_complete = Some False,
       grounded_claims = Some [],
       confidence = None,
       ambiguities = Some [],
       next_agent = None,
       requires_human_approval = Some False,
       requires_more_info = Some False,
       loop_back_to = None,
       final_recommendation = None,
       processing_complete = Some False,
       total_processing_time_ms = Some 0,
       total_tokens_consumed = Some 0,
       errors = Some [] \<rparr>"

section \<open>Agents\<close>

text \<open>
  Modelled from the spec: the \<open>AgentOutput\<close> type (src/agents/schemas is not among the
  sources). Section 4.1: an agent output contains a result payload (step-specific fields), a
  suggested next agent name (or null), a \<open>requires_human_approval\<close> flag, a
  \<open>requires_more_info\<close> flag, elapsed processing time, consumed cost units, zero or more
  grounded claims and zero or more ambiguity flags. The fields of the payload are the keys
  the nodes read with \<open>result.get\<close>, at the types the record declares for them; \<open>None\<close> is
  an absent key. Claims and ambiguity flags are held as dumped (\<open>model_dump()\<close>).
\<close>

record AgentResult =
  res_intent :: "string option"
  res_initial_assessment :: "string option"
  res_priority :: "string option"
  res_incident_type :: "string option"
  res_recommended_assets :: "json list option"
  res_resolved_location :: "json option"
  res_address :: "string option"
  res_nearby_landmarks :: "string list option"
  res_recommended_sops :: "json list option"
  res_critical_instructions :: "string option"
  res_contraindications :: "string option"
  res_image_analysis :: "json option"
  res_visual_confirmation :: "bool option"
  res_quality_score :: "rat option"
  res_gaps_detected :: "string list option"
  res_grounding_issues :: "string list option"

record AgentOutput =
  out_result :: AgentResult
  out_next_agent :: "string option"
  out_requires_human_approval :: bool
  out_requires_more_info :: bool
  out_processing_time_ms :: int
  out_tokens_consumed :: int
  out_grounded_claims :: "json list"
  out_ambiguities :: "json list"

datatype node = Supervisor | Triage | Geo | Protocol | Vision | Reflector | Hitl

fun node_name :: "node \<Rightarrow> string" where
  "node_name Supervisor = ''supervisor''"
| "node_name Triage = ''triage''"
| "node_name Geo = ''geo''"
| "node_name Protocol = ''protocol''"
| "node_name Vision = ''vision''"
| "node_name Reflector = ''reflector''"
| "node_name Hitl = ''hitl''"

text \<open>
  The agents are external services. \<open>A n state\<close> is the outcome of
  \<open>self._get_agent(name).process(build_agent_input(state))\<close> for the agent of node \<open>n\<close>:
  an exception or an output. The agent sees the record only through the read-only
  projection \<open>build_agent_input\<close>; any function of the record covers that.
\<close>

type_synonym agents = "node \<Rightarrow> IncidentState \<Rightarrow> error + AgentOutput"

section \<open>The nodes (workflow.py)\<close>

definition run_supervisor :: "agents \<Rightarrow> IncidentState \<Rightarrow> error + IncidentState" where
  "run_supervisor A state =
     (case A Supervisor state of
        Inl e \<Rightarrow> Inl e
      | Inr output \<Rightarrow>
          let result = out_result output in
          Inr (state
            \<lparr> intent := Some (getd (res_intent result) ''unclear''),
              initial_assessment := Some (getd (res_initial_assessment result) []),
              next_agent := out_next_agent output,
              agent_history := Some (getd (agent_history state) [] @ [''supervisor'']),
              requires_human_approval := Some (out_requires_human_approval output),
              requires_more_info := Some (out_requires_more_info output),
              total_processing_time_ms :=
                Some (getd (total_processing_time_ms state) 0 + out_processing_time_ms output),
              total_tokens_consumed :=
                Some (getd (total_tokens_consumed state) 0 + out_tokens_consumed output),
              ambiguities :=
                (if out_ambiguities output \<noteq> [] then Some (out_ambiguities output)
                 else ambiguities state) \<rparr>))"

definition run_triage :: "agents \<Rightarrow> IncidentState \<Rightarrow> error + IncidentState" where
  "run_triage A state =
     (case A Triage state of
        Inl e \<Rightarrow> Inl e
      | Inr output \<Rightarrow>
          let result = out_result output in
          Inr (state
            \<lparr> priority := Some (getd (res_priority result) ''P3''),
              incident_type := Some (getd (res_incident_type result) ''Unknown''),
              recommended_assets := Some (getd (res_recommended_assets result) []),
              next_agent := out_next_agent output,
              agent_history := Some (getd (agent_history state) [] @ [''triage'']),
              requires_human_approval := Some (out_requires_human_approval output),
              total_processing_time_ms :=
                Some (getd (total_processing_time_ms state) 0 + out_processing_time_ms output),
              total_tokens_consumed :=
                Some (getd (total_tokens_consumed state) 0 + out_tokens_consumed output),
              grounded_claims :=
                (if out_grounded_claims output \<noteq> []
                 then Some (getd (grounded_claims state) [] @ out_grounded_claims output)
                 else grounded_claims state) \<rparr>))"

definition run_geo :: "agents \<Rightarrow> IncidentState \<Rightarrow> error + IncidentState" where
  "run_geo A state =
     (case A Geo state of
        Inl e \<Rightarrow> Inl e
      | Inr output \<Rightarrow>
          let result = out_result output in
          Inr (state
            \<lparr> resolved_location := res_resolved_location result,
              address := res_address result,
              nearby_landmarks := Some (getd (res_nearby_landmarks result) []),
              next_agent := out_next_agent output,
              agent_history := Some (getd (agent_history state) [] @ [''geo'']),
              requires_more_info := Some (out_requires_more_info output),
              total_processing_time_ms :=
                Some (getd (total_processing_time_ms state) 0 + out_processing_time_ms output),
              total_tokens_consumed :=
                Some (getd (total_tokens_consumed state) 0 + out_tokens_consumed output),
              ambiguities :=
                (if out_ambiguities output \<noteq> []
                 then Some (getd (ambiguities state) [] @ out_ambiguities output)
                 else ambiguities state) \<rparr>))"

definition run_protocol :: "agents \<Rightarrow> IncidentState \<Rightarrow> error + IncidentState" where
  "run_protocol A state =
     (case A Protocol state of
        Inl e \<Rightarrow> Inl e
      | Inr output \<Rightarrow>
          let result = out_result output in
          Inr (state
            \<lparr> recommended_sops := Some (getd (res_recommended_sops result) []),
              critical_instructions := Some (getd (res_critical_instructions result) []),
              contraindications := res_contraindications result,
              next_agent := out_next_agent output,
              agent_history := Some (getd (agent_history state) [] @ [''protocol'']),
              total_processing_time_ms :=
                Some (getd (total_processing_time_ms state) 0 + out_processing_time_ms output),
              total_tokens_consumed :=
                Some (getd (total_tokens_consumed state) 0 + out_tokens_consumed output),
              grounded_claims :=
                (if out_grounded_claims output \<noteq> []
                 then Some (getd (grounded_claims state) [] @ out_grounded_claims output)
                 else grounded_claims state) \<rparr>))"

definition run_vision :: "agents \<Rightarrow> IncidentState \<Rightarrow> error + IncidentState" where
  "run_vision A state =
     (case A Vision state of
        Inl e \<Rightarrow> Inl e
      | Inr output \<Rightarrow>
          let result = out_result output in
          Inr (state
            \<lparr> visual_analysis := res_image_analysis result,
              visual_confirmation := Some (getd (res_visual_confirmation result) False),
              next_agent := out_next_agent output,
              agent_history := Some (getd (agent_history state) [] @ [''vision'']),
              requires_more_info := Some (out_requires_more_info output),
              total_processing_time_ms :=
                Some (getd (total_processing_time_ms state) 0 + out_processing_time_ms output),
              total_tokens_consumed :=
                Some (getd (total_tokens_consumed state) 0 + out_tokens_consumed output) \<rparr>))"

definition run_reflector :: "agents \<Rightarrow> IncidentState \<Rightarrow> error + IncidentState" where
  "run_reflector A state =
     (case A Reflector state of
        Inl e \<Rightarrow> Inl e
      | Inr output \<Rightarrow>
          let result = out_result output in
          Inr (state
            \<lparr> quality_score := Some (getd (res_quality_score result) float_0_7),
              gaps_detected := Some (getd (res_gaps_detected result) []),
              grounding_issues := Some (getd (res_grounding_issues result) []),
              reflection_complete := Some True,
              next_agent := out_next_agent output,
              agent_history := Some (getd (agent_history state) [] @ [''reflector'']),
              requires_human_approval := Some (out_requires_human_approval output),
              requires_more_info := Some (out_requires_more_info output),
              loop_back_to :=
                (if out_requires_more_info output then out_next_agent output else None),
              total_processing_time_ms :=
                Some (getd (total_processing_time_ms state) 0 + out_processing_time_ms output),
              total_tokens_consumed :=
                Some (getd (total_tokens_consumed state) 0 + out_tokens_consumed output) \<rparr>))"

text \<open>The human-in-the-loop checkpoint. It calls no agent and cannot fail.\<close>

definition opt_json :: "json option \<Rightarrow> json" where
  "opt_json v = (case v of None \<Rightarrow> JNull | Some j \<Rightarrow> j)"

definition opt_str :: "string option \<Rightarrow> json" where
  "opt_str v = (case v of None \<Rightarrow> JNull | Some s \<Rightarrow> JStr s)"

definition build_final_recommendation :: "IncidentState \<Rightarrow> pydict" where
  "build_final_recommendation state =
     [ (''incident_id'', opt_str (incident_id state)),
       (''priority'', JStr (getd (priority state) ''P3'')),
       (''incident_type'', JStr (getd (incident_type state) ''Unknown'')),
       (''recommended_assets'', JArr (getd (recommended_assets state) [])),
       (''location'', opt_json (resolved_location state)),
       (''address'', opt_str (address state)),
       (''critical_instructions'', JStr (getd (critical_instructions state) [])),
       (''recommended_sops'', JArr (getd (recommended_sops state) [])),
       (''quality_score'', JNum (getd (quality_score state) float_0_7)),
       (''gaps_detected'', JArr (map JStr (getd (gaps_detected state) []))),
       (''grounded_claims_count'',
          JNum (of_nat (length (getd (grounded_claims state) [])))) ]"

definition hitl_node :: "IncidentState \<Rightarrow> IncidentState" where
  "hitl_node state =
     state \<lparr> final_recommendation := Some (build_final_recommendation state),
             processing_complete := Some True,
             requires_human_approval := Some True \<rparr>"

section \<open>Routing (workflow.py)\<close>

definition route_after_supervisor :: "IncidentState \<Rightarrow> string" where
  "route_after_supervisor state =
     (let intent = getd (intent state) ''unclear'' in
      if intent = ''unclear'' \<or> truthy (requires_human_approval state) then ''hitl''
      else if intent = ''location_unclear'' then ''geo''
      else if intent = ''visual_needed'' then ''vision''
      else ''triage'')"

definition route_after_geo :: "IncidentState \<Rightarrow> string" where
  "route_after_geo state = (if truthy (requires_more_info state) then ''hitl'' else ''triage'')"

definition route_after_vision :: "IncidentState \<Rightarrow> string" where
  "route_after_vision state =
     (if truthy (requires_more_info state) then ''hitl'' else ''triage'')"

text \<open>
  The router after the reflector writes \<open>iteration_count\<close> into the record it is given:
  it returns the route and the record.
\<close>

definition route_after_reflector :: "IncidentState \<Rightarrow> string \<times> IncidentState" where
  "route_after_reflector state =
     (let quality_score = getd (quality_score state) float_0_7;
          iteration_count = getd (iteration_count state) 0;
          max_iterations = getd (max_iterations state) 5
      in
      if iteration_count \<ge> max_iterations then (''hitl'', state)
      else if quality_score \<ge> float_0_7 then (''hitl'', state)
      else (case loop_back_to state of
              None \<Rightarrow> (''hitl'', state)
            | Some target \<Rightarrow>
                if target \<noteq> [] \<and> target \<in> set [''supervisor'', ''triage'', ''geo'']
                then (target, state \<lparr> iteration_count := Some (iteration_count + 1) \<rparr>)
                else (''hitl'', state)))"

section \<open>The graph (build_graph)\<close>

text \<open>
  The graph library that executes the compiled graph is not part of the repository; two
  facts of its behaviour are taken as given. First, one node runs at a time, starting at the
  entry point, and what the node returns becomes the record; the router of a conditional
  edge is then called on a snapshot of that record, only the route it returns is used, and
  what the router writes into the snapshot is lost. So the \<open>iteration_count\<close> that
  \<open>_route_after_reflector\<close> increments never reaches the record: no node writes it.
  Second, a run that has not reached \<open>END\<close> within the library's limit of steps
  (\<open>recursion_limit\<close>, 25 unless configured) is ended with a \<open>GraphRecursionError\<close>.
  The edge from \<open>hitl\<close> leads to \<open>END\<close>.
\<close>

definition edges_supervisor :: "(string \<times> node) list" where
  "edges_supervisor =
     [(''triage'', Triage), (''geo'', Geo), (''vision'', Vision), (''hitl'', Hitl)]"

definition edges_geo :: "(string \<times> node) list" where
  "edges_geo = [(''triage'', Triage), (''hitl'', Hitl)]"

definition edges_vision :: "(string \<times> node) list" where
  "edges_vision = [(''triage'', Triage), (''hitl'', Hitl)]"

definition edges_reflector :: "(string \<times> node) list" where
  "edges_reflector =
     [(''supervisor'', Supervisor), (''triage'', Triage), (''geo'', Geo), (''hitl'', Hitl)]"

text \<open>The next node is \<open>None\<close> at \<open>END\<close>. A route missing from the table is an error.\<close>

definition follow ::
  "(string \<times> node) list \<Rightarrow> string \<Rightarrow> IncidentState \<Rightarrow> error + (IncidentState \<times> node option)"
  where
  "follow edges route state =
     (case map_of edges route of
        None \<Rightarrow> Inl (Error route)
      | Some n \<Rightarrow> Inr (state, Some n))"

fun graph_step ::
  "agents \<Rightarrow> node \<Rightarrow> IncidentState \<Rightarrow> error + (IncidentState \<times> node option)" where
  "graph_step A Supervisor state =
     (case run_supervisor A state of
        Inl e \<Rightarrow> Inl e
      | Inr state' \<Rightarrow> follow edges_supervisor (route_after_supervisor state') state')"
| "graph_step A Geo state =
     (case run_geo A state of
        Inl e \<Rightarrow> Inl e
      | Inr state' \<Rightarrow> follow edges_geo (route_after_geo state') state')"
| "graph_step A Vision state =
     (case run_vision A state of
        Inl e \<Rightarrow> Inl e
      | Inr state' \<Rightarrow> follow edges_vision (route_after_vision state') state')"
| "graph_step A Triage state =
     (case run_triage A state of
        Inl e \<Rightarrow> Inl e
      | Inr state' \<Rightarrow> Inr (state', Some Protocol))"
| "graph_step A Protocol state =
     (case run_protocol A state of
        Inl e \<Rightarrow> Inl e
      | Inr state' \<Rightarrow> Inr (state', Some Reflector))"
| "graph_step A Reflector state =
     (case run_reflector A state of
        Inl e \<Rightarrow> Inl e
      | Inr state' \<Rightarrow>
          (case route_after_reflector state' of
             (route, written) \<Rightarrow> follow edges_reflector route state'))"
| "graph_step A Hitl state = Inr (hitl_node state, None)"

text \<open>
  A run from a node under a limit of steps: the nodes executed, each with the record it
  left, and the outcome: the exception that ended the run, or the final record.
\<close>

fun run_from ::
  "agents \<Rightarrow> nat \<Rightarrow> node \<Rightarrow> IncidentState
     \<Rightarrow> (node \<times> IncidentState) list \<times> (error + IncidentState)"
  where
  "run_from A 0 n state = ([], Inl (Error ''GraphRecursionError''))"
| "run_from A (Suc limit) n state =
     (case graph_step A n state of
        Inl e \<Rightarrow> ([], Inl e)
      | Inr (state', None) \<Rightarrow> ([(n, state')], Inr state')
      | Inr (state', Some n') \<Rightarrow>
          (case run_from A limit n' state' of
             (trace, outcome) \<Rightarrow> ((n, state') # trace, outcome)))"

text \<open>\<open>AgentWorkflow.run\<close>: the graph is entered at the supervisor.\<close>

definition run :: "agents \<Rightarrow> nat \<Rightarrow> IncidentState \<Rightarrow> error + IncidentState" where
  "run A limit initial_state = snd (run_from A limit Supervisor initial_state)"

text \<open>The function \<open>build_graph\<close> registers under each node name.\<close>

fun run_node :: "agents \<Rightarrow> node \<Rightarrow> IncidentState \<Rightarrow> error + IncidentState" where
  "run_node A Supervisor s = run_supervisor A s"
| "run_node A Triage s = run_triage A s"
| "run_node A Geo s = run_geo A s"
| "run_node A Protocol s = run_protocol A s"
| "run_node A Vision s = run_vision A s"
| "run_node A Reflector s = run_reflector A s"
| "run_node A Hitl s = Inr (hitl_node s)"

text \<open>
  The steps of a run: each executed node with the record before it and the record after it
  (consecutive records of the run).
\<close>

fun transitions ::
  "IncidentState \<Rightarrow> (node \<times> IncidentState) list \<Rightarrow> (IncidentState \<times> node \<times> IncidentState) list"
  where
  "transitions s [] = []"
| "transitions s ((n, s') # tr) = (s, n, s') # transitions s' tr"

section \<open>The orchestrator (orchestrator.py)\<close>

text \<open>
  The collaborators of the orchestrator, each a function that returns or raises, and the
  configured mode. \<open>llm_generate\<close> is given the user prompt (system prompt, temperature,
  token limit and response format are constants of the call) and returns the response
  dictionary. \<open>format_slice\<close> is Python's rendering inside an f-string of \<open>value[:200]\<close>
  for a value that is not text. The two clock readings are the values of
  \<open>int((time.time() - start_time) * 1000)\<close> at the end of \<open>process_incident\<close> and in the
  error path of the test mode. \<open>recursion_limit\<close> is the step limit of the graph library
  (\<open>ainvoke\<close> is called without a configuration, so the library's default applies). The text of an exception raised by the interpreter itself
  is abbreviated to the name of its class.
\<close>

record services =
  mode :: string
  embed_text :: "string \<Rightarrow> error + rat list list"
  hybrid_search :: "string \<Rightarrow> rat list \<Rightarrow> nat \<Rightarrow> error + json list"
  llm_generate :: "string \<Rightarrow> error + pydict"
  json_loads :: "string \<Rightarrow> error + json"
  format_slice :: "json \<Rightarrow> error + string"
  agents_of :: agents
  recursion_limit :: nat
  elapsed_ms :: int
  elapsed_inner_ms :: int

record retrieval_context =
  ctx_docs :: "json list"
  ctx_sops :: "json list"
  ctx_landmarks :: "json list"
  ctx_images :: "json list"

text \<open>\<open>result[key] = value\<close>: an existing key keeps its place, a new key goes last.\<close>

fun dict_set :: "string \<Rightarrow> json \<Rightarrow> pydict \<Rightarrow> pydict" where
  "dict_set k v [] = [(k, v)]"
| "dict_set k v ((k', v') # d) = (if k' = k then (k, v) # d else (k', v') # dict_set k v d)"

text \<open>\<open>x.get\<close> exists on a dictionary only.\<close>

definition as_dict :: "json \<Rightarrow> error + pydict" where
  "as_dict x = (case x of JObj d \<Rightarrow> Inr d | _ \<Rightarrow> Inl (Error ''AttributeError''))"

text \<open>
  One search inside its own \<open>try\<close>: the hits are stored on success, the entry keeps its
  value when the search raises.
\<close>

definition attempt :: "error + json list \<Rightarrow> json list \<Rightarrow> json list" where
  "attempt outcome old = (case outcome of Inl e \<Rightarrow> old | Inr hits \<Rightarrow> hits)"

definition retrieve_context ::
  "services \<Rightarrow> string \<Rightarrow> json option \<Rightarrow> rat list list option \<Rightarrow> retrieval_context" where
  "retrieve_context sv q loc embeddings =
     (let context = \<lparr> ctx_docs = [], ctx_sops = [], ctx_landmarks = [], ctx_images = [] \<rparr> in
      case embed_text sv q of
        Inl e \<Rightarrow> context
      | Inr [] \<Rightarrow> context
      | Inr (query_embedding # _) \<Rightarrow>
          let context = context
                \<lparr> ctx_docs :=
                    attempt (hybrid_search sv ''incident_memory'' query_embedding 5)
                      (ctx_docs context) \<rparr>;
              context = context
                \<lparr> ctx_sops :=
                    attempt (hybrid_search sv ''protocols_sops'' query_embedding 5)
                      (ctx_sops context) \<rparr>;
              context =
                (if loc = None
                 then context
                   \<lparr> ctx_landmarks :=
                       attempt (hybrid_search sv ''landmark_index'' query_embedding 5)
                         (ctx_landmarks context) \<rparr>
                 else context);
              context =
                (case embeddings of
                   Some (image_embedding # _) \<Rightarrow>
                     context
                       \<lparr> ctx_images :=
                           attempt (hybrid_search sv ''visual_evidence'' image_embedding 5)
                             (ctx_images context) \<rparr>
                 | _ \<Rightarrow> context)
          in context)"

definition error_response :: "string \<Rightarrow> string \<Rightarrow> int \<Rightarrow> pydict" where
  "error_response iid err ms =
     [ (''incident_id'', JStr iid),
       (''status'', JStr ''error''),
       (''error'', JStr err),
       (''priority'', JStr ''P2''),
       (''incident_type'', JStr ''Unknown_RequiresReview''),
       (''recommended_assets'',
          JArr [JObj [(''type'', JStr ''ALS_Ambulance''), (''quantity'', JNum 1)]]),
       (''critical_instructions'', JStr ''Escalate to human dispatcher immediately.''),
       (''requires_human_approval'', JBool True),
       (''processing_time_ms'', JNum (of_int ms)) ]"

subsection \<open>Test mode\<close>

definition nl :: string where
  "nl = [CHR 0x0A]"

fun join :: "string \<Rightarrow> string list \<Rightarrow> string" where
  "join sep [] = []"
| "join sep [x] = x"
| "join sep (x # y # ys) = x @ sep @ join sep (y # ys)"

text \<open>A list comprehension whose element expression may raise.\<close>

fun collect :: "('a \<Rightarrow> error + 'b) \<Rightarrow> 'a list \<Rightarrow> error + 'b list" where
  "collect f [] = Inr []"
| "collect f (x # xs) =
     (case f x of
        Inl e \<Rightarrow> Inl e
      | Inr y \<Rightarrow> (case collect f xs of Inl e \<Rightarrow> Inl e | Inr ys \<Rightarrow> Inr (y # ys)))"

text \<open>
  \<open>f"- {hit.get('content', hit.get('payload', {}).get('content', ''))[:200]}..."\<close>;
  the default is evaluated whether or not the key is there.
\<close>

definition hit_line :: "services \<Rightarrow> json \<Rightarrow> error + string" where
  "hit_line sv hit =
     (case as_dict hit of
        Inl e \<Rightarrow> Inl e
      | Inr d \<Rightarrow>
          (case as_dict (getd (map_of d ''payload'') (JObj [])) of
             Inl e \<Rightarrow> Inl e
           | Inr payload \<Rightarrow>
               (case (case getd (map_of d ''content'') (getd (map_of payload ''content'') (JStr []))
                      of JStr s \<Rightarrow> Inr (take 200 s) | v \<Rightarrow> format_slice sv v) of
                  Inl e \<Rightarrow> Inl e
                | Inr shown \<Rightarrow> Inr (''- '' @ shown @ ''...''))))"

definition format_context_for_prompt :: "services \<Rightarrow> retrieval_context \<Rightarrow> error + string" where
  "format_context_for_prompt sv context =
     (case (if ctx_sops context \<noteq> []
            then (case collect (hit_line sv) (take 3 (ctx_sops context)) of
                    Inl e \<Rightarrow> Inl e
                  | Inr ls \<Rightarrow> Inr [''RELEVANT SOPs:'' @ nl @ join nl ls])
            else Inr []) of
        Inl e \<Rightarrow> Inl e
      | Inr parts \<Rightarrow>
          (case (if ctx_docs context \<noteq> []
                 then (case collect (hit_line sv) (take 3 (ctx_docs context)) of
                         Inl e \<Rightarrow> Inl e
                       | Inr ls \<Rightarrow> Inr (parts @ [''SIMILAR INCIDENTS:'' @ nl @ join nl ls]))
                 else Inr parts) of
             Inl e \<Rightarrow> Inl e
           | Inr parts \<Rightarrow>
               Inr (if parts \<noteq> [] then join (nl @ nl) parts
                    else ''No relevant context found.'')))"

definition user_prompt :: "string \<Rightarrow> string \<Rightarrow> string" where
  "user_prompt q context_str =
     ''EMERGENCY REPORT:'' @ nl @ q @ nl @ nl @ ''RETRIEVED CONTEXT:'' @ nl @ context_str
       @ nl @ nl @ ''Provide a complete assessment with priority, assets, and instructions.''"

text \<open>
  The body of the \<open>try\<close> in \<open>_process_test_mode\<close>: the completion call, the parse of its
  content and the assembly of the result.
\<close>

definition test_mode_try :: "services \<Rightarrow> string \<Rightarrow> string \<Rightarrow> error + pydict" where
  "test_mode_try sv iid prompt =
     (case llm_generate sv prompt of
        Inl e \<Rightarrow> Inl e
      | Inr response \<Rightarrow>
          (case map_of response ''content'' of
             None \<Rightarrow> Inl (Error ''KeyError'')
           | Some (JStr content) \<Rightarrow>
               (case json_loads sv content of
                  Inl e \<Rightarrow> Inl e
                | Inr parsed \<Rightarrow>
                    (case as_dict parsed of
                       Inl e \<Rightarrow> Inl e
                     | Inr result \<Rightarrow>
                         (case as_dict (getd (map_of response ''usage'') (JObj [])) of
                            Inl e \<Rightarrow> Inl e
                          | Inr usage \<Rightarrow>
                              Inr [ (''incident_id'', JStr iid),
                                    (''status'', JStr ''test_complete''),
                                    (''priority'',
                                       getd (map_of result ''priority'') (JStr ''P3'')),
                                    (''incident_type'',
                                       getd (map_of result ''incident_type'') (JStr ''Unknown'')),
                                    (''recommended_assets'',
                                       getd (map_of result ''recommended_assets'') (JArr [])),
                                    (''critical_instructions'',
                                       getd (map_of result ''critical_instructions'') (JStr [])),
                                    (''reasoning'',
                                       getd (map_of result ''reasoning'') (JStr [])),
                                    (''confidence'',
                                       getd (map_of result ''confidence'') (JNum float_0_7)),
                                    (''requires_human_approval'',
                                       JBool (getd (map_of result ''priority'') JNull
                                              \<in> set [JStr ''P1'', JStr ''P2''])),
                                    (''tokens_consumed'',
                                       getd (map_of usage ''total_tokens'') (JNum 0)),
                                    (''model_used'',
                                       getd (map_of response ''model'') (JStr ''unknown'')) ])))
           | Some _ \<Rightarrow> Inl (Error ''TypeError'')))"

definition process_test_mode ::
  "services \<Rightarrow> string \<Rightarrow> string \<Rightarrow> retrieval_context \<Rightarrow> error + pydict" where
  "process_test_mode sv iid q context =
     (case format_context_for_prompt sv context of
        Inl e \<Rightarrow> Inl e
      | Inr context_str \<Rightarrow>
          (case test_mode_try sv iid (user_prompt q context_str) of
             Inr result \<Rightarrow> Inr result
           | Inl e \<Rightarrow> Inr (error_response iid (str_of e) (elapsed_inner_ms sv))))"

subsection \<open>Prod mode\<close>

text \<open>The record handed to the workflow: the initial state with the retrieved context.\<close>

definition prod_initial_state ::
  "string \<Rightarrow> string \<Rightarrow> string \<Rightarrow> string \<Rightarrow> string \<Rightarrow> json option \<Rightarrow> string option
     \<Rightarrow> rat list list option \<Rightarrow> retrieval_context \<Rightarrow> IncidentState" where
  "prod_initial_state iid q txt chan role loc transcript embeddings context =
     (create_initial_state iid q txt chan role loc transcript embeddings)
       \<lparr> retrieved_docs := Some (ctx_docs context),
         retrieved_sops := Some (ctx_sops context),
         retrieved_landmarks := Some (ctx_landmarks context),
         retrieved_images := Some (ctx_images context) \<rparr>"

definition extract_result :: "string \<Rightarrow> IncidentState \<Rightarrow> pydict" where
  "extract_result iid final_state =
     [ (''incident_id'', JStr iid),
       (''status'', JStr ''workflow_complete''),
       (''priority'', JStr (getd (priority final_state) ''P3'')),
       (''incident_type'', JStr (getd (incident_type final_state) ''Unknown'')),
       (''recommended_assets'', JArr (getd (recommended_assets final_state) [])),
       (''location'', opt_json (resolved_location final_state)),
       (''address'', opt_str (address final_state)),
       (''critical_instructions'', JStr (getd (critical_instructions final_state) [])),
       (''recommended_sops'', JArr (getd (recommended_sops final_state) [])),
       (''quality_score'', JNum (getd (quality_score final_state) float_0_7)),
       (''gaps_detected'', JArr (map JStr (getd (gaps_detected final_state) []))),
       (''grounded_claims_count'',
          JNum (of_nat (length (getd (grounded_claims final_state) [])))),
       (''agent_history'', JArr (map JStr (getd (agent_history final_state) []))),
       (''requires_human_approval'',
          JBool (getd (requires_human_approval final_state) True)),
       (''tokens_consumed'', JNum (of_int (getd (total_tokens_consumed final_state) 0))),
       (''final_recommendation'',
          (case final_recommendation final_state of None \<Rightarrow> JNull | Some d \<Rightarrow> JObj d)) ]"

definition process_prod_mode ::
  "services \<Rightarrow> string \<Rightarrow> string \<Rightarrow> string \<Rightarrow> string \<Rightarrow> string \<Rightarrow> json option
     \<Rightarrow> string option \<Rightarrow> rat list list option \<Rightarrow> retrieval_context \<Rightarrow> error + pydict" where
  "process_prod_mode sv iid q txt chan role loc transcript embeddings context =
     (case run (agents_of sv) (recursion_limit sv)
             (prod_initial_state iid q txt chan role loc transcript embeddings context) of
        Inl e \<Rightarrow> Inl e
      | Inr final_state \<Rightarrow> Inr (extract_result iid final_state))"

subsection \<open>The entry point\<close>

text \<open>
  The idempotency cache \<open>_processed_incidents\<close> is a dictionary from identifiers to
  results. \<open>process_incident\<close> returns its result and the cache it leaves.
  \<open>process_body\<close> is the body of its \<open>try\<close> up to the metadata; \<open>text_input or query\<close>
  takes the query when the text is \<open>None\<close> or empty.
\<close>

type_synonym cache = "string \<rightharpoonup> pydict"

definition process_body ::
  "services \<Rightarrow> string \<Rightarrow> string \<Rightarrow> string option \<Rightarrow> string \<Rightarrow> string \<Rightarrow> json option
     \<Rightarrow> string option \<Rightarrow> rat list list option \<Rightarrow> error + pydict" where
  "process_body sv iid q txt chan role loc transcript embeddings =
     (let context = retrieve_context sv q loc embeddings in
      case (if mode sv = ''test'' then process_test_mode sv iid q context
            else process_prod_mode sv iid q
                   (case txt of None \<Rightarrow> q | Some t \<Rightarrow> if t = [] then q else t)
                   chan role loc transcript embeddings context) of
        Inl e \<Rightarrow> Inl e
      | Inr result \<Rightarrow>
          Inr (dict_set ''mode'' (JStr (mode sv))
                 (dict_set ''processing_time_ms'' (JNum (of_int (elapsed_ms sv))) result)))"

definition process_incident ::
  "services \<Rightarrow> cache \<Rightarrow> string \<Rightarrow> string \<Rightarrow> string option \<Rightarrow> string \<Rightarrow> string \<Rightarrow> json option
     \<Rightarrow> string option \<Rightarrow> rat list list option \<Rightarrow> bool \<Rightarrow> pydict \<times> cache" where
  "process_incident sv processed iid q txt chan role loc transcript embeddings force_reprocess =
     (case (if \<not> force_reprocess then processed iid else None) of
        Some cached \<Rightarrow> (cached, processed)
      | None \<Rightarrow>
          (case process_body sv iid q txt chan role loc transcript embeddings of
             Inr result \<Rightarrow> (result, processed(iid \<mapsto> result))
           | Inl e \<Rightarrow> (error_response iid (str_of e) (elapsed_ms sv), processed)))"

section \<open>Concrete scenarios\<close>

text \<open>Agents and a record to run the definitions on.\<close>

definition empty_result :: AgentResult where
  "empty_result =
     \<lparr> res_intent = None, res_initial_assessment = None, res_priority = None,
       res_incident_type = None, res_recommended_assets = None, res_resolved_location = None,
       res_address = None, res_nearby_landmarks = None, res_recommended_sops = None,
       res_critical_instructions = None, res_contraindications = None,
       res_image_analysis = None, res_visual_confirmation = None, res_quality_score = None,
       res_gaps_detected = None, res_grounding_issues = None \<rparr>"

definition plain_output :: AgentOutput where
  "plain_output =
     \<lparr> out_result = empty_result, out_next_agent = None, out_requires_human_approval = False,
       out_requires_more_info = False, out_processing_time_ms = 0, out_tokens_consumed = 0,
       out_grounded_claims = [], out_ambiguities = [] \<rparr>"

definition demo_state :: IncidentState where
  "demo_state =
     create_initial_state ''INC-1'' ''person collapsed'' ''person collapsed'' ''web''
       ''dispatcher'' None None None"

definition unclear_agents :: agents where
  "unclear_agents n state = Inr plain_output"

fun flag_agents :: agents where
  "flag_agents Supervisor state =
     Inr (plain_output \<lparr> out_result := empty_result \<lparr> res_intent := Some ''medical'' \<rparr> \<rparr>)"
| "flag_agents Triage state = Inr (plain_output \<lparr> out_requires_human_approval := True \<rparr>)"
| "flag_agents n state = Inr plain_output"

fun scenario_B_agents :: agents where
  "scenario_B_agents Supervisor state =
     Inr (plain_output \<lparr> out_result := empty_result \<lparr> res_intent := Some ''medical'' \<rparr> \<rparr>)"
| "scenario_B_agents Reflector state =
     Inr (plain_output
            \<lparr> out_result := empty_result \<lparr> res_quality_score := Some float_0_3 \<rparr>,
              out_next_agent := Some ''triage'',
              out_requires_more_info := True \<rparr>)"
| "scenario_B_agents n state = Inr plain_output"

fun reassess_agents :: agents where
  "reassess_agents Supervisor state =
     Inr (plain_output \<lparr> out_result := empty_result \<lparr> res_intent := Some ''fire'' \<rparr> \<rparr>)"
| "reassess_agents Triage state =
     Inr (plain_output
            \<lparr> out_result := empty_result
                \<lparr> res_recommended_assets :=
                    Some (if ''reflector'' \<in> set (getd (agent_history state) [])
                          then [JObj [(''type'', JStr ''Fire_Engine''), (''quantity'', JNum 2)]]
                          else [JObj [(''type'', JStr ''ALS_Ambulance''), (''quantity'', JNum 1)]])
                \<rparr> \<rparr>)"
| "reassess_agents Reflector state =
     (if ''reflector'' \<in> set (getd (agent_history state) []) then Inr plain_output
      else Inr (plain_output
                  \<lparr> out_result := empty_result \<lparr> res_quality_score := Some float_0_3 \<rparr>,
                    out_next_agent := Some ''triage'',
                    out_requires_more_info := True \<rparr>))"
| "reassess_agents n state = Inr plain_output"

text \<open>
  Services in prod mode: with agents that answer (the supervisor finds the intent unclear),
  and with agents that are down. Retrieval finds nothing.
\<close>

definition up_services :: services where
  "up_services =
     \<lparr> mode = ''prod'',
       embed_text = (\<lambda>q. Inr [[1, 0]]),
       hybrid_search = (\<lambda>collection v k. Inr []),
       llm_generate = (\<lambda>prompt. Inl (Error ''completion service unavailable'')),
       json_loads = (\<lambda>text. Inl (Error ''JSONDecodeError'')),
       format_slice = (\<lambda>v. Inl (Error ''TypeError'')),
       agents_of = unclear_agents,
       recursion_limit = 25,
       elapsed_ms = 12,
       elapsed_inner_ms = 0 \<rparr>"

definition down_services :: services where
  "down_services = up_services \<lparr> agents_of := (\<lambda>n state. Inl (Error ''agent unavailable'')) \<rparr>"

text \<open>A call of \<open>process_incident\<close> on the demo incident with the default arguments.\<close>

definition demo_call :: "services \<Rightarrow> cache \<Rightarrow> bool \<Rightarrow> pydict \<times> cache" where
  "demo_call sv processed force_reprocess =
     process_incident sv processed ''INC-1'' ''person collapsed'' None ''web'' ''dispatcher''
       None None None force_reprocess"

text \<open>Services whose similarity searches all fail.\<close>

definition search_down_services :: services where
  "search_down_services =
     up_services \<lparr> hybrid_search := (\<lambda>collection v k. Inl (Error ''search unavailable'')) \<rparr>"

text \<open>
  Services in test mode: the completion service answers with a low-priority assessment,
  which the parser turns into an object.
\<close>

definition test_content :: string where
  \<open>test_content = ''{"priority": "P4", "incident_type": "Noise_Complaint"}''\<close>

definition test_services :: services where
  "test_services =
     up_services
       \<lparr> mode := ''test'',
         llm_generate :=
           (\<lambda>prompt. Inr [ (''content'', JStr test_content),
                           (''usage'', JObj [(''total_tokens'', JNum 120)]),
                           (''model'', JStr ''large'') ]),
         json_loads :=
           (\<lambda>text. if text = test_content
                   then Inr (JObj [ (''priority'', JStr ''P4''),
                                    (''incident_type'', JStr ''Noise_Complaint'') ])
                   else Inl (Error ''JSONDecodeError'')) \<rparr>"

definition no_context :: retrieval_context where
  "no_context = \<lparr> ctx_docs = [], ctx_sops = [], ctx_landmarks = [], ctx_images = [] \<rparr>"

text \<open>Services in prod mode whose agents behave as in scenario B.\<close>

definition scenario_B_services :: services where
  "scenario_B_services = up_services \<lparr> agents_of := scenario_B_agents \<rparr>"

text \<open>
  Agents that report evidence: the supervisor finds the location unclear, geo flags an
  ambiguity, triage and protocol each ground a claim, and the reflector is satisfied.
\<close>

fun evidence_agents :: agents where
  "evidence_agents Supervisor state =
     Inr (plain_output
            \<lparr> out_result := empty_result \<lparr> res_intent := Some ''location_unclear'' \<rparr> \<rparr>)"
| "evidence_agents Geo state =
     Inr (plain_output \<lparr> out_ambiguities := [JObj [(''field'', JStr ''location'')]] \<rparr>)"
| "evidence_agents Triage state =
     Inr (plain_output
            \<lparr> out_result := empty_result
                \<lparr> res_recommended_assets :=
                    Some [JObj [(''type'', JStr ''ALS_Ambulance''), (''quantity'', JNum 1)]] \<rparr>,
              out_grounded_claims := [JObj [(''claim'', JStr ''cardiac arrest'')]] \<rparr>)"
| "evidence_agents Protocol state =
     Inr (plain_output \<lparr> out_grounded_claims := [JObj [(''claim'', JStr ''start CPR'')]] \<rparr>)"
| "evidence_agents n state = Inr plain_output"

definition evidence_trace :: "(node \<times> IncidentState) list" where
  "evidence_trace = fst (run_from evidence_agents 25 Supervisor demo_state)"

text \<open>The same services with a response whose usage entry is null.\<close>

definition null_usage_services :: services where
  "null_usage_services =
     test_services
       \<lparr> llm_generate :=
           (\<lambda>prompt. Inr [ (''content'', JStr test_content),
                           (''usage'', JNull),
                           (''model'', JStr ''large'') ]) \<rparr>"

section \<open>Runs of the graph\<close>

lemma follow_Inr:
  assumes "follow edges r s = Inr (s', t)"
  shows "s' = s \<and> t = map_of edges r \<and> t \<noteq> None"
proof (cases "map_of edges r")
  case None
  with assms show ?thesis by (simp add: follow_def)
next
  case (Some n)
  with assms have "s' = s" "t = Some n" by (simp_all add: follow_def)
  with Some show ?thesis by simp
qed

text \<open>A step of the graph leaves the record its node returned.\<close>

lemma graph_step_node:
  assumes "graph_step A n s = Inr (s', t)"
  shows "run_node A n s = Inr s'"
proof (cases n)
  case Supervisor
  with assms obtain s1 where s1: "run_supervisor A s = Inr s1"
    and f: "follow edges_supervisor (route_after_supervisor s1) s1 = Inr (s', t)"
    by (auto split: sum.splits)
  from follow_Inr [OF f] s1 Supervisor show ?thesis by simp
next
  case Triage
  with assms show ?thesis by (auto split: sum.splits)
next
  case Geo
  with assms obtain s1 where s1: "run_geo A s = Inr s1"
    and f: "follow edges_geo (route_after_geo s1) s1 = Inr (s', t)"
    by (auto split: sum.splits)
  from follow_Inr [OF f] s1 Geo show ?thesis by simp
next
  case Protocol
  with assms show ?thesis by (auto split: sum.splits)
next
  case Vision
  with assms obtain s1 where s1: "run_vision A s = Inr s1"
    and f: "follow edges_vision (route_after_vision s1) s1 = Inr (s', t)"
    by (auto split: sum.splits)
  from follow_Inr [OF f] s1 Vision show ?thesis by simp
next
  case Reflector
  with assms obtain s1 r w where s1: "run_reflector A s = Inr s1"
    and f: "follow edges_reflector r s1 = Inr (s', t)"
    by (auto split: sum.splits prod.splits)
  from follow_Inr [OF f] s1 Reflector show ?thesis by simp
next
  case Hitl
  with assms show ?thesis by simp
qed

lemma graph_step_END:
  "graph_step A n s = Inr (s', None) \<longleftrightarrow> n = Hitl \<and> s' = hitl_node s"
proof (cases n)
  case Supervisor
  then show ?thesis by (auto split: sum.splits dest: follow_Inr)
next
  case Geo
  then show ?thesis by (auto split: sum.splits dest: follow_Inr)
next
  case Vision
  then show ?thesis by (auto split: sum.splits dest: follow_Inr)
next
  case Reflector
  then show ?thesis by (auto split: sum.splits prod.splits dest: follow_Inr)
qed (auto split: sum.splits)

lemma graph_step_to_Hitl_from:
  "graph_step A n s = Inr (s', Some n') \<Longrightarrow> n \<noteq> Hitl"
  by (cases n) auto

lemma run_from_Hitl:
  "run_from A (Suc limit) Hitl s = ([(Hitl, hitl_node s)], Inr (hitl_node s))"
  by simp

lemma run_from_fail:
  "graph_step A n s = Inl e \<Longrightarrow> run_from A (Suc limit) n s = ([], Inl e)"
  by simp

lemma run_from_step:
  "graph_step A n s = Inr (s', Some n') \<Longrightarrow>
     run_from A (Suc limit) n s
       = ((n, s') # fst (run_from A limit n' s'), snd (run_from A limit n' s'))"
  by (simp split: prod.splits)

lemma run_from_numeral:
  "run_from A (numeral k) n s =
     (case graph_step A n s of
        Inl e \<Rightarrow> ([], Inl e)
      | Inr (s', None) \<Rightarrow> ([(n, s')], Inr s')
      | Inr (s', Some n') \<Rightarrow>
          (case run_from A (pred_numeral k) n' s' of
             (trace, outcome) \<Rightarrow> ((n, s') # trace, outcome)))"
  by (simp add: numeral_eq_Suc)

text \<open>The shape of a run: the checkpoint is its last node and no other.\<close>

lemma run_from_shape:
  "(case snd (run_from A limit n s) of
      Inl e \<Rightarrow> Hitl \<notin> fst ` set (fst (run_from A limit n s))
    | Inr sf \<Rightarrow> \<exists>tr sp. fst (run_from A limit n s) = tr @ [(Hitl, sf)]
                  \<and> Hitl \<notin> fst ` set tr
                  \<and> sf = hitl_node sp \<and> sp = (if tr = [] then s else snd (last tr)))"
proof (induction limit arbitrary: n s)
  case 0
  show ?case by simp
next
  case (Suc limit)
  show ?case
  proof (cases "graph_step A n s")
    case (Inl e)
    then show ?thesis by (simp add: run_from_fail)
  next
    case (Inr p)
    obtain s' t where p: "p = (s', t)" by (cases p)
    show ?thesis
    proof (cases t)
      case None
      with Inr p have "n = Hitl" "s' = hitl_node s" by (simp_all add: graph_step_END)
      then show ?thesis by (simp add: run_from_Hitl del: run_from.simps)
    next
      case (Some n')
      with Inr p have st: "graph_step A n s = Inr (s', Some n')" by simp
      then have nh: "n \<noteq> Hitl" by (rule graph_step_to_Hitl_from)
      note IH = Suc.IH [of n' s']
      show ?thesis
      proof (cases "snd (run_from A limit n' s')")
        case (Inl e)
        with IH nh show ?thesis by (simp add: run_from_step [OF st] del: run_from.simps)
      next
        case (Inr sf)
        with IH obtain tr where tr: "fst (run_from A limit n' s') = tr @ [(Hitl, sf)]"
          "Hitl \<notin> fst ` set tr" "sf = hitl_node (if tr = [] then s' else snd (last tr))"
          by auto
        have "fst (run_from A (Suc limit) n s) = ((n, s') # tr) @ [(Hitl, sf)]"
          by (simp add: run_from_step [OF st] tr del: run_from.simps)
        moreover have "Hitl \<notin> fst ` set ((n, s') # tr)" using tr nh by auto
        moreover have "sf = hitl_node (snd (last ((n, s') # tr)))" using tr by simp
        ultimately show ?thesis using Inr
          by (simp add: run_from_step [OF st] del: append_Cons run_from.simps)
      qed
    qed
  qed
qed

lemma run_from_transitions:
  "(s1, m, s2) \<in> set (transitions s (fst (run_from A limit n s))) \<Longrightarrow>
     \<exists>t. graph_step A m s1 = Inr (s2, t)"
proof (induction limit arbitrary: n s)
  case 0
  then show ?case by simp
next
  case (Suc limit)
  show ?case
  proof (cases "graph_step A n s")
    case (Inl e)
    with Suc.prems show ?thesis by (simp add: run_from_fail)
  next
    case (Inr p)
    obtain s' t where p: "p = (s', t)" by (cases p)
    show ?thesis
    proof (cases t)
      case None
      with Inr p have "n = Hitl" "s' = hitl_node s" by (simp_all add: graph_step_END)
      with Suc.prems show ?thesis by (simp add: run_from_Hitl del: run_from.simps)
    next
      case (Some n')
      with Inr p have st: "graph_step A n s = Inr (s', Some n')" by simp
      from Suc.prems have "(s1, m, s2) = (s, n, s') \<or>
          (s1, m, s2) \<in> set (transitions s' (fst (run_from A limit n' s')))"
        by (simp add: run_from_step [OF st] del: run_from.simps)
      then show ?thesis
      proof
        assume "(s1, m, s2) = (s, n, s')"
        with st show ?thesis by auto
      next
        assume "(s1, m, s2) \<in> set (transitions s' (fst (run_from A limit n' s')))"
        then show ?thesis by (rule Suc.IH)
      qed
    qed
  qed
qed

text \<open>Evaluation of a run on concrete agents.\<close>

lemmas eval_defs =
  run_def run_from_numeral run_supervisor_def run_triage_def run_geo_def run_protocol_def
  run_vision_def run_reflector_def hitl_node_def route_after_supervisor_def
  route_after_geo_def route_after_vision_def route_after_reflector_def follow_def
  edges_supervisor_def edges_geo_def edges_vision_def edges_reflector_def
  getd_def truthy_def Let_def plain_output_def empty_result_def demo_state_def
  create_initial_state_def float_0_7_def float_0_3_def

section \<open>The checkpoint\<close>

lemmas node_defs =
  run_supervisor_def run_triage_def run_geo_def run_protocol_def run_vision_def
  run_reflector_def

lemma run_node_final:
  "n \<noteq> Hitl \<Longrightarrow> run_node A n s = Inr s1 \<Longrightarrow>
     final_recommendation s1 = final_recommendation s \<and>
     processing_complete s1 = processing_complete s"
  by (cases n) (auto simp: node_defs Let_def split: sum.splits)

lemma graph_step_final:
  assumes "n \<noteq> Hitl" "graph_step A n s = Inr (s', t)"
  shows "final_recommendation s' = final_recommendation s \<and>
         processing_complete s' = processing_complete s \<and> t \<noteq> None"
proof -
  from graph_step_node [OF assms(2)] have s1: "run_node A n s = Inr s'" .
  from run_node_final [OF assms(1) s1]
  have "final_recommendation s' = final_recommendation s \<and>
        processing_complete s' = processing_complete s" .
  moreover have "t \<noteq> None" using assms graph_step_END [of A n s s'] by auto
  ultimately show ?thesis by simp
qed

text \<open>
  C1. The checkpoint node, whatever the record holds, assembles the final recommendation
  and sets \<open>processing_complete\<close> and \<open>requires_human_approval\<close> to true; its edge leads to
  \<open>END\<close>. No other node writes the final recommendation or the completion flag, and every
  other node is followed by a node. In every run the checkpoint is executed last if at all,
  and a run that completes ends with the checkpoint's record.
\<close>

theorem hitl_checkpoint:
  "(final_recommendation (hitl_node s) = Some (build_final_recommendation s) \<and>
    processing_complete (hitl_node s) = Some True \<and>
    requires_human_approval (hitl_node s) = Some True \<and>
    graph_step A Hitl s = Inr (hitl_node s, None)) \<and>
   (n \<noteq> Hitl \<longrightarrow> graph_step A n s = Inr (s', t) \<longrightarrow>
      final_recommendation s' = final_recommendation s \<and>
      processing_complete s' = processing_complete s \<and> t \<noteq> None) \<and>
   Hitl \<notin> fst ` set (butlast (fst (run_from A limit Supervisor s0))) \<and>
   (run A limit s0 = Inr sf \<longrightarrow>
      (\<exists>sp. fst (run_from A limit Supervisor s0) \<noteq> [] \<and>
            last (fst (run_from A limit Supervisor s0)) = (Hitl, sf) \<and> sf = hitl_node sp \<and>
            final_recommendation sf = Some (build_final_recommendation sp) \<and>
            processing_complete sf = Some True \<and> requires_human_approval sf = Some True))"
proof -
  have node: "final_recommendation (hitl_node s) = Some (build_final_recommendation s) \<and>
    processing_complete (hitl_node s) = Some True \<and>
    requires_human_approval (hitl_node s) = Some True \<and>
    graph_step A Hitl s = Inr (hitl_node s, None)"
    by (simp add: hitl_node_def)
  have others: "n \<noteq> Hitl \<longrightarrow> graph_step A n s = Inr (s', t) \<longrightarrow>
      final_recommendation s' = final_recommendation s \<and>
      processing_complete s' = processing_complete s \<and> t \<noteq> None"
    using graph_step_final by blast
  have shape: "case snd (run_from A limit Supervisor s0) of
      Inl e \<Rightarrow> Hitl \<notin> fst ` set (fst (run_from A limit Supervisor s0))
    | Inr sf \<Rightarrow> \<exists>tr sp. fst (run_from A limit Supervisor s0) = tr @ [(Hitl, sf)]
         \<and> Hitl \<notin> fst ` set tr
         \<and> sf = hitl_node sp \<and> sp = (if tr = [] then s0 else snd (last tr))"
    by (rule run_from_shape)
  have last_only: "Hitl \<notin> fst ` set (butlast (fst (run_from A limit Supervisor s0)))"
  proof (cases "snd (run_from A limit Supervisor s0)")
    case (Inl e)
    with shape have "Hitl \<notin> fst ` set (fst (run_from A limit Supervisor s0))" by simp
    then show ?thesis by (auto dest: in_set_butlastD)
  next
    case (Inr sf)
    with shape show ?thesis by auto
  qed
  have completed: "run A limit s0 = Inr sf \<longrightarrow>
      (\<exists>sp. fst (run_from A limit Supervisor s0) \<noteq> [] \<and>
            last (fst (run_from A limit Supervisor s0)) = (Hitl, sf) \<and> sf = hitl_node sp \<and>
            final_recommendation sf = Some (build_final_recommendation sp) \<and>
            processing_complete sf = Some True \<and> requires_human_approval sf = Some True)"
  proof
    assume "run A limit s0 = Inr sf"
    then have "snd (run_from A limit Supervisor s0) = Inr sf" by (simp add: run_def)
    with shape obtain tr sp where
      "fst (run_from A limit Supervisor s0) = tr @ [(Hitl, sf)]" "sf = hitl_node sp" by auto
    then show "\<exists>sp. fst (run_from A limit Supervisor s0) \<noteq> [] \<and>
            last (fst (run_from A limit Supervisor s0)) = (Hitl, sf) \<and> sf = hitl_node sp \<and>
            final_recommendation sf = Some (build_final_recommendation sp) \<and>
            processing_complete sf = Some True \<and> requires_human_approval sf = Some True"
      by (auto simp: hitl_node_def)
  qed
  from node others last_only completed show ?thesis by blast
qed

lemma unclear_supervisor_step:
  "\<exists>s1. graph_step unclear_agents Supervisor demo_state = Inr (s1, Some Hitl)"
  by (simp add: eval_defs unclear_agents_def)

lemma unclear_run: "\<exists>sf. run unclear_agents 25 demo_state = Inr sf"
  by (simp add: eval_defs unclear_agents_def)

theorem hitl_checkpoint_witness:
  "\<exists>s1 sf. Supervisor \<noteq> Hitl \<and>
     graph_step unclear_agents Supervisor demo_state = Inr (s1, Some Hitl) \<and>
     final_recommendation s1 = final_recommendation demo_state \<and>
     run unclear_agents 25 demo_state = Inr sf \<and>
     last (fst (run_from unclear_agents 25 Supervisor demo_state)) = (Hitl, sf) \<and>
     processing_complete sf = Some True \<and> requires_human_approval sf = Some True"
proof -
  from unclear_supervisor_step obtain s1 where
    s1: "graph_step unclear_agents Supervisor demo_state = Inr (s1, Some Hitl)" by blast
  from unclear_run obtain sf where sf: "run unclear_agents 25 demo_state = Inr sf" by blast
  from hitl_checkpoint [of demo_state unclear_agents Supervisor s1 "Some Hitl" 25 demo_state sf]
    s1 sf
  show ?thesis by auto
qed

section \<open>The approval flag\<close>

lemma run_node_approval:
  "run_node A n s = Inr s1 \<Longrightarrow>
     requires_human_approval s1 =
       (case n of
          Hitl \<Rightarrow> Some True
        | Geo \<Rightarrow> requires_human_approval s
        | Protocol \<Rightarrow> requires_human_approval s
        | Vision \<Rightarrow> requires_human_approval s
        | _ \<Rightarrow> (case A n s of
                  Inr output \<Rightarrow> Some (out_requires_human_approval output)
                | Inl e \<Rightarrow> requires_human_approval s))"
  by (cases n) (auto simp: node_defs hitl_node_def Let_def split: sum.splits)

lemma graph_step_approval:
  assumes "graph_step A n s = Inr (s', t)"
  shows "requires_human_approval s' =
       (case n of
          Hitl \<Rightarrow> Some True
        | Geo \<Rightarrow> requires_human_approval s
        | Protocol \<Rightarrow> requires_human_approval s
        | Vision \<Rightarrow> requires_human_approval s
        | _ \<Rightarrow> (case A n s of
                  Inr output \<Rightarrow> Some (out_requires_human_approval output)
                | Inl e \<Rightarrow> requires_human_approval s))"
proof -
  from graph_step_node [OF assms] have "run_node A n s = Inr s'" .
  from run_node_approval [OF this] show ?thesis .
qed

lemma run_completed_approval:
  assumes "run A limit s0 = Inr sf"
  shows "requires_human_approval sf = Some True"
proof -
  from assms have "snd (run_from A limit Supervisor s0) = Inr sf" by (simp add: run_def)
  with run_from_shape [of A limit Supervisor s0] obtain sp where "sf = hitl_node sp" by auto
  then show ?thesis by (simp add: hitl_node_def)
qed

text \<open>
  C2 (as the code has it). The flag is not kept once set: the supervisor, triage and
  reflector nodes store the flag of their agent's output, whatever the record held; the
  geo, protocol and vision nodes and the routers leave it as it is; the checkpoint sets it
  to true. So it is true in the final record of every completed run, and in the result
  extracted from it.
\<close>

theorem approval_flag_per_node:
  "(graph_step A n s = Inr (s', t) \<longrightarrow>
      requires_human_approval s' =
        (case n of
           Hitl \<Rightarrow> Some True
         | Geo \<Rightarrow> requires_human_approval s
         | Protocol \<Rightarrow> requires_human_approval s
         | Vision \<Rightarrow> requires_human_approval s
         | _ \<Rightarrow> (case A n s of
                   Inr output \<Rightarrow> Some (out_requires_human_approval output)
                 | Inl e \<Rightarrow> requires_human_approval s))) \<and>
   (run A limit s0 = Inr sf \<longrightarrow>
      requires_human_approval sf = Some True \<and>
      map_of (extract_result iid sf) ''requires_human_approval'' = Some (JBool True))"
proof (intro conjI impI)
  assume "graph_step A n s = Inr (s', t)"
  then show "requires_human_approval s' =
        (case n of
           Hitl \<Rightarrow> Some True
         | Geo \<Rightarrow> requires_human_approval s
         | Protocol \<Rightarrow> requires_human_approval s
         | Vision \<Rightarrow> requires_human_approval s
         | _ \<Rightarrow> (case A n s of
                   Inr output \<Rightarrow> Some (out_requires_human_approval output)
                 | Inl e \<Rightarrow> requires_human_approval s))"
    by (rule graph_step_approval)
next
  assume r: "run A limit s0 = Inr sf"
  then show "requires_human_approval sf = Some True" by (rule run_completed_approval)
  from run_completed_approval [OF r]
  show "map_of (extract_result iid sf) ''requires_human_approval'' = Some (JBool True)"
    by (simp add: extract_result_def getd_def)
qed

lemma flag_triage_step:
  "\<exists>s1. graph_step flag_agents Triage demo_state = Inr (s1, Some Protocol)"
  by (simp add: eval_defs)

lemma flag_run: "\<exists>sf. run flag_agents 25 demo_state = Inr sf"
  by (simp add: eval_defs)

theorem approval_flag_per_node_witness:
  "\<exists>s1 sf. graph_step flag_agents Triage demo_state = Inr (s1, Some Protocol) \<and>
     requires_human_approval s1 = Some True \<and>
     run flag_agents 25 demo_state = Inr sf \<and> requires_human_approval sf = Some True"
proof -
  from flag_triage_step obtain s1 where
    s1: "graph_step flag_agents Triage demo_state = Inr (s1, Some Protocol)" by blast
  from flag_run obtain sf where sf: "run flag_agents 25 demo_state = Inr sf" by blast
  from approval_flag_per_node
         [of flag_agents Triage demo_state s1 "Some Protocol" 25 demo_state sf] s1 sf
  show ?thesis by (auto simp: plain_output_def)
qed

text \<open>
  The claim as stated fails: the triage agent asks for approval, and the reflector of the
  same run stores its own flag, false, over it.
\<close>

theorem approval_flag_reset_counterexample:
  "map fst (fst (run_from flag_agents 25 Supervisor demo_state))
     = [Supervisor, Triage, Protocol, Reflector, Hitl] \<and>
   map (requires_human_approval \<circ> snd) (fst (run_from flag_agents 25 Supervisor demo_state))
     = [Some False, Some True, Some True, Some False, Some True]"
  by (simp add: eval_defs)

section \<open>The reflection loop\<close>

text \<open>
  No node writes \<open>iteration_count\<close>, and the router's increment is lost, so with a
  reflector that always asks to go back to triage the record reaches every pass with the
  counter it started with.
\<close>

lemma scenario_B_step:
  assumes "n \<in> {Triage, Protocol, Reflector}"
    "iteration_count s = Some 0" "max_iterations s = Some 5"
  shows "\<exists>s' n'. graph_step scenario_B_agents n s = Inr (s', Some n') \<and>
           n' \<in> {Triage, Protocol, Reflector} \<and>
           iteration_count s' = Some 0 \<and> max_iterations s' = Some 5"
proof -
  from assms(1) consider "n = Triage" | "n = Protocol" | "n = Reflector" by auto
  then show ?thesis
  proof cases
    case 1
    with assms(2,3) show ?thesis by (simp add: run_triage_def Let_def)
  next
    case 2
    with assms(2,3) show ?thesis by (simp add: run_protocol_def Let_def)
  next
    case 3
    with assms(2,3) show ?thesis
      by (simp add: run_reflector_def Let_def route_after_reflector_def follow_def
            edges_reflector_def getd_def plain_output_def empty_result_def float_0_7_def
            float_0_3_def)
  qed
qed

lemma scenario_B_loop:
  assumes "n \<in> {Triage, Protocol, Reflector}"
    "iteration_count s = Some 0" "max_iterations s = Some 5"
  shows "snd (run_from scenario_B_agents limit n s) = Inl (Error ''GraphRecursionError'') \<and>
         Hitl \<notin> set (map fst (fst (run_from scenario_B_agents limit n s))) \<and>
         map (iteration_count \<circ> snd) (fst (run_from scenario_B_agents limit n s))
           = replicate (length (fst (run_from scenario_B_agents limit n s))) (Some 0)"
  using assms
proof (induction limit arbitrary: n s)
  case 0
  show ?case by simp
next
  case (Suc limit)
  from scenario_B_step [OF Suc.prems] obtain s' n' where
    st: "graph_step scenario_B_agents n s = Inr (s', Some n')" and
    n': "n' \<in> {Triage, Protocol, Reflector}" and
    c: "iteration_count s' = Some 0" "max_iterations s' = Some 5" by blast
  from Suc.prems(1) have nh: "n \<noteq> Hitl" by auto
  from Suc.IH [OF n' c] nh c(1) show ?case
    by (simp add: run_from_step [OF st] del: run_from.simps)
qed

lemma scenario_B_supervisor_step:
  assumes "iteration_count s0 = Some 0" "max_iterations s0 = Some 5"
  shows "\<exists>s1. graph_step scenario_B_agents Supervisor s0 = Inr (s1, Some Triage) \<and>
           iteration_count s1 = Some 0 \<and> max_iterations s1 = Some 5"
  using assms
  by (simp add: run_supervisor_def Let_def route_after_supervisor_def follow_def
        edges_supervisor_def getd_def truthy_def plain_output_def empty_result_def)

lemma scenario_B_run:
  assumes "iteration_count s0 = Some 0" "max_iterations s0 = Some 5"
  shows "snd (run_from scenario_B_agents limit Supervisor s0)
           = Inl (Error ''GraphRecursionError'') \<and>
         Hitl \<notin> set (map fst (fst (run_from scenario_B_agents limit Supervisor s0))) \<and>
         map (iteration_count \<circ> snd) (fst (run_from scenario_B_agents limit Supervisor s0))
           = replicate (length (fst (run_from scenario_B_agents limit Supervisor s0))) (Some 0)"
proof (cases limit)
  case 0
  then show ?thesis by simp
next
  case (Suc k)
  from scenario_B_supervisor_step [OF assms] obtain s1 where
    st: "graph_step scenario_B_agents Supervisor s0 = Inr (s1, Some Triage)" and
    c: "iteration_count s1 = Some 0" "max_iterations s1 = Some 5" by blast
  have "Triage \<in> {Triage, Protocol, Reflector}" by simp
  from scenario_B_loop [OF this c, of k] c(1) Suc show ?thesis
    by (simp add: run_from_step [OF st] del: run_from.simps)
qed

lemma demo_state_counters:
  "iteration_count demo_state = Some 0" "max_iterations demo_state = Some 5"
  by (simp_all add: demo_state_def create_initial_state_def)

lemma scenario_B_trace:
  "map fst (fst (run_from scenario_B_agents 25 Supervisor demo_state)) =
     [Supervisor,
      Triage, Protocol, Reflector, Triage, Protocol, Reflector, Triage, Protocol, Reflector,
      Triage, Protocol, Reflector, Triage, Protocol, Reflector, Triage, Protocol, Reflector,
      Triage, Protocol, Reflector, Triage, Protocol, Reflector]"
  by (simp add: eval_defs)

text \<open>
  C3. The run of scenario B (a reflector that always returns score 0.3 and asks to go back
  to triage, \<open>max_iterations = 5\<close>): whatever the step limit, the run does not reach the
  checkpoint and ends with the library's recursion error; under the default limit of 25
  steps the reflector has run eight times, more than \<open>max_iterations\<close>. The guard
  \<open>iteration_count >= max_iterations\<close> never holds, since the counter stays at 0.
\<close>

theorem reflection_loop_not_bounded:
  "max_iterations demo_state = Some 5 \<and>
   run scenario_B_agents limit demo_state = Inl (Error ''GraphRecursionError'') \<and>
   Hitl \<notin> set (map fst (fst (run_from scenario_B_agents limit Supervisor demo_state))) \<and>
   map fst (fst (run_from scenario_B_agents 25 Supervisor demo_state)) =
     [Supervisor,
      Triage, Protocol, Reflector, Triage, Protocol, Reflector, Triage, Protocol, Reflector,
      Triage, Protocol, Reflector, Triage, Protocol, Reflector, Triage, Protocol, Reflector,
      Triage, Protocol, Reflector, Triage, Protocol, Reflector] \<and>
   count_list (map fst (fst (run_from scenario_B_agents 25 Supervisor demo_state))) Reflector
     = 8"
  using scenario_B_run [OF demo_state_counters, of limit]
  by (simp add: run_def demo_state_counters scenario_B_trace)

text \<open>
  C4. The run of scenario B as the orchestrator starts it: every record of the run has
  \<open>iteration_count = 0\<close> (it never becomes 5), the checkpoint is not executed, the run ends
  with the recursion error, and \<open>process_incident\<close> returns the fallback of its error
  handler and stores nothing.
\<close>

theorem scenario_B_recursion_error:
  "map (iteration_count \<circ> snd) (fst (run_from scenario_B_agents limit Supervisor demo_state))
     = replicate (length (fst (run_from scenario_B_agents limit Supervisor demo_state)))
         (Some 0) \<and>
   Hitl \<notin> set (map fst (fst (run_from scenario_B_agents limit Supervisor demo_state))) \<and>
   run scenario_B_agents limit demo_state = Inl (Error ''GraphRecursionError'') \<and>
   demo_call scenario_B_services Map.empty False
     = (error_response ''INC-1'' ''GraphRecursionError'' 12, Map.empty)"
proof -
  let ?init = "prod_initial_state ''INC-1'' ''person collapsed'' ''person collapsed'' ''web''
      ''dispatcher'' None None None
      (retrieve_context scenario_B_services ''person collapsed'' None None)"
  have i: "iteration_count ?init = Some 0" "max_iterations ?init = Some 5"
    by (simp_all add: prod_initial_state_def create_initial_state_def)
  from scenario_B_run [OF i, of 25]
  have "run scenario_B_agents 25 ?init = Inl (Error ''GraphRecursionError'')"
    by (simp add: run_def)
  then have "process_body scenario_B_services ''INC-1'' ''person collapsed'' None ''web''
      ''dispatcher'' None None None = Inl (Error ''GraphRecursionError'')"
    by (simp add: process_body_def process_prod_mode_def Let_def scenario_B_services_def
          up_services_def)
  then have "demo_call scenario_B_services Map.empty False
     = (error_response ''INC-1'' ''GraphRecursionError'' 12, Map.empty)"
    by (simp add: demo_call_def process_incident_def scenario_B_services_def up_services_def)
  with scenario_B_run [OF demo_state_counters, of limit] show ?thesis
    by (simp add: run_def)
qed

section \<open>The lists of the record\<close>

lemma run_node_lists:
  "run_node A n s = Inr s1 \<Longrightarrow>
     prefix (getd (agent_history s) []) (getd (agent_history s1) []) \<and>
     prefix (getd (grounded_claims s) []) (getd (grounded_claims s1) []) \<and>
     retrieved_docs s1 = retrieved_docs s \<and> retrieved_sops s1 = retrieved_sops s \<and>
     retrieved_landmarks s1 = retrieved_landmarks s \<and>
     retrieved_images s1 = retrieved_images s \<and>
     (n \<noteq> Supervisor \<longrightarrow> prefix (getd (ambiguities s) []) (getd (ambiguities s1) [])) \<and>
     (n \<noteq> Triage \<longrightarrow> recommended_assets s1 = recommended_assets s)"
  by (cases n) (auto simp: node_defs hitl_node_def Let_def getd_def split: sum.splits)

lemma run_triage_assets:
  "run_triage A s = Inr s1 \<Longrightarrow>
     \<exists>ao. A Triage s = Inr ao \<and>
       recommended_assets s1 = Some (getd (res_recommended_assets (out_result ao)) [])"
  by (auto simp: run_triage_def Let_def split: sum.splits)

lemma graph_step_lists:
  assumes "graph_step A n s = Inr (s', t)"
  shows "prefix (getd (agent_history s) []) (getd (agent_history s') []) \<and>
     prefix (getd (grounded_claims s) []) (getd (grounded_claims s') []) \<and>
     retrieved_docs s' = retrieved_docs s \<and> retrieved_sops s' = retrieved_sops s \<and>
     retrieved_landmarks s' = retrieved_landmarks s \<and>
     retrieved_images s' = retrieved_images s \<and>
     (n \<noteq> Supervisor \<longrightarrow> prefix (getd (ambiguities s) []) (getd (ambiguities s') [])) \<and>
     (n \<noteq> Triage \<longrightarrow> recommended_assets s' = recommended_assets s) \<and>
     (n = Triage \<longrightarrow>
        (\<exists>ao. A Triage s = Inr ao \<and>
           recommended_assets s' = Some (getd (res_recommended_assets (out_result ao)) [])))"
proof -
  from graph_step_node [OF assms] have s1: "run_node A n s = Inr s'" .
  have "n = Triage \<longrightarrow>
        (\<exists>ao. A Triage s = Inr ao \<and>
           recommended_assets s' = Some (getd (res_recommended_assets (out_result ao)) []))"
    using s1 run_triage_assets [of A s s'] by auto
  with run_node_lists [OF s1] show ?thesis by simp
qed

text \<open>
  C8 (as the code has it). Between consecutive records of a run, \<open>agent_history\<close> and
  \<open>grounded_claims\<close> only grow at the end and the four retrieved-evidence lists do not
  change. \<open>ambiguities\<close> only grows at the end in every step other than the supervisor's.
  \<open>recommended_assets\<close> is not appended to: every node other than triage leaves it as it
  is, and triage replaces it with the assets of its agent's result (the empty list when the
  result has none).
\<close>

theorem lists_append_only:
  "(s1, n, s2) \<in> set (transitions s0 (fst (run_from A limit n0 s0))) \<longrightarrow>
     prefix (getd (agent_history s1) []) (getd (agent_history s2) []) \<and>
     prefix (getd (grounded_claims s1) []) (getd (grounded_claims s2) []) \<and>
     retrieved_docs s2 = retrieved_docs s1 \<and> retrieved_sops s2 = retrieved_sops s1 \<and>
     retrieved_landmarks s2 = retrieved_landmarks s1 \<and>
     retrieved_images s2 = retrieved_images s1 \<and>
     (n \<noteq> Supervisor \<longrightarrow> prefix (getd (ambiguities s1) []) (getd (ambiguities s2) [])) \<and>
     (n \<noteq> Triage \<longrightarrow> recommended_assets s2 = recommended_assets s1) \<and>
     (n = Triage \<longrightarrow>
        (\<exists>ao. A Triage s1 = Inr ao \<and>
           recommended_assets s2 = Some (getd (res_recommended_assets (out_result ao)) [])))"
proof
  assume "(s1, n, s2) \<in> set (transitions s0 (fst (run_from A limit n0 s0)))"
  from run_from_transitions [OF this] obtain t where "graph_step A n s1 = Inr (s2, t)"
    by blast
  then show "prefix (getd (agent_history s1) []) (getd (agent_history s2) []) \<and>
     prefix (getd (grounded_claims s1) []) (getd (grounded_claims s2) []) \<and>
     retrieved_docs s2 = retrieved_docs s1 \<and> retrieved_sops s2 = retrieved_sops s1 \<and>
     retrieved_landmarks s2 = retrieved_landmarks s1 \<and>
     retrieved_images s2 = retrieved_images s1 \<and>
     (n \<noteq> Supervisor \<longrightarrow> prefix (getd (ambiguities s1) []) (getd (ambiguities s2) [])) \<and>
     (n \<noteq> Triage \<longrightarrow> recommended_assets s2 = recommended_assets s1) \<and>
     (n = Triage \<longrightarrow>
        (\<exists>ao. A Triage s1 = Inr ao \<and>
           recommended_assets s2 = Some (getd (res_recommended_assets (out_result ao)) [])))"
    by (rule graph_step_lists)
qed

lemma transitions_nth:
  "Suc i < length tr \<Longrightarrow>
     (snd (tr ! i), fst (tr ! Suc i), snd (tr ! Suc i)) \<in> set (transitions s tr)"
proof (induction tr arbitrary: i s)
  case Nil
  then show ?case by simp
next
  case (Cons p tr)
  obtain n s' where p: "p = (n, s')" by (cases p)
  show ?case
  proof (cases i)
    case 0
    with Cons.prems obtain q tr' where tr: "tr = q # tr'" by (cases tr) auto
    obtain m s'' where q: "q = (m, s'')" by (cases q)
    from 0 p tr q show ?thesis by simp
  next
    case (Suc j)
    with Cons.prems have "Suc j < length tr" by simp
    from Cons.IH [OF this, of s'] Suc p show ?thesis by simp
  qed
qed

lemma evidence_nodes:
  "map fst evidence_trace = [Supervisor, Geo, Triage, Protocol, Reflector, Hitl]"
  by (simp add: evidence_trace_def eval_defs)

lemma evidence_claims:
  "map (grounded_claims \<circ> snd) evidence_trace =
     [Some [], Some [],
      Some [JObj [(''claim'', JStr ''cardiac arrest'')]],
      Some [JObj [(''claim'', JStr ''cardiac arrest'')], JObj [(''claim'', JStr ''start CPR'')]],
      Some [JObj [(''claim'', JStr ''cardiac arrest'')], JObj [(''claim'', JStr ''start CPR'')]],
      Some [JObj [(''claim'', JStr ''cardiac arrest'')], JObj [(''claim'', JStr ''start CPR'')]]]"
  by (simp add: evidence_trace_def eval_defs)

lemma evidence_history:
  "map (agent_history \<circ> snd) evidence_trace =
     [Some [''supervisor''], Some [''supervisor'', ''geo''],
      Some [''supervisor'', ''geo'', ''triage''],
      Some [''supervisor'', ''geo'', ''triage'', ''protocol''],
      Some [''supervisor'', ''geo'', ''triage'', ''protocol'', ''reflector''],
      Some [''supervisor'', ''geo'', ''triage'', ''protocol'', ''reflector'']]"
  by (simp add: evidence_trace_def eval_defs)

lemma evidence_length: "length evidence_trace = 6"
proof -
  have "length (map fst evidence_trace) = 6" by (simp add: evidence_nodes)
  then show ?thesis by simp
qed

lemma transitions_step:
  assumes "j = Suc i" "j < length tr" "fst (tr ! j) = n"
  shows "(snd (tr ! i), n, snd (tr ! j)) \<in> set (transitions s tr)"
proof -
  from assms(1,2) have "Suc i < length tr" by simp
  from transitions_nth [OF this, of s]
  have "(snd (tr ! i), fst (tr ! Suc i), snd (tr ! Suc i)) \<in> set (transitions s tr)" .
  then show ?thesis unfolding assms(1) [symmetric] assms(3) .
qed

lemma evidence_steps:
  "(snd (evidence_trace ! 2), Protocol, snd (evidence_trace ! 3))
     \<in> set (transitions demo_state evidence_trace)"
  "(snd (evidence_trace ! 1), Triage, snd (evidence_trace ! 2))
     \<in> set (transitions demo_state evidence_trace)"
proof -
  have n3: "fst (evidence_trace ! 3) = Protocol"
    using nth_map [of 3 evidence_trace fst] by (simp add: evidence_length evidence_nodes)
  have n2: "fst (evidence_trace ! 2) = Triage"
    using nth_map [of 2 evidence_trace fst] by (simp add: evidence_length evidence_nodes)
  have l3: "(3::nat) < length evidence_trace" and l2: "(2::nat) < length evidence_trace"
    by (simp_all add: evidence_length)
  have e3: "(3::nat) = Suc 2" and e2: "(2::nat) = Suc 1" by simp_all
  show "(snd (evidence_trace ! 2), Protocol, snd (evidence_trace ! 3))
     \<in> set (transitions demo_state evidence_trace)"
    by (rule transitions_step [OF e3 l3 n3])
  show "(snd (evidence_trace ! 1), Triage, snd (evidence_trace ! 2))
     \<in> set (transitions demo_state evidence_trace)"
    by (rule transitions_step [OF e2 l2 n2])
qed

lemma evidence_fields:
  "agent_history (snd (evidence_trace ! 2)) = Some [''supervisor'', ''geo'', ''triage'']"
  "agent_history (snd (evidence_trace ! 3))
     = Some [''supervisor'', ''geo'', ''triage'', ''protocol'']"
  "grounded_claims (snd (evidence_trace ! 2)) = Some [JObj [(''claim'', JStr ''cardiac arrest'')]]"
  "grounded_claims (snd (evidence_trace ! 3))
     = Some [JObj [(''claim'', JStr ''cardiac arrest'')], JObj [(''claim'', JStr ''start CPR'')]]"
proof -
  have h: "agent_history (snd (evidence_trace ! i)) = map (agent_history \<circ> snd) evidence_trace ! i"
    if "i < 6" for i using that by (simp add: evidence_length)
  have g: "grounded_claims (snd (evidence_trace ! i))
             = map (grounded_claims \<circ> snd) evidence_trace ! i"
    if "i < 6" for i using that by (simp add: evidence_length)
  show "agent_history (snd (evidence_trace ! 2)) = Some [''supervisor'', ''geo'', ''triage'']"
    by (simp add: h evidence_history)
  show "agent_history (snd (evidence_trace ! 3))
     = Some [''supervisor'', ''geo'', ''triage'', ''protocol'']"
    by (simp add: h evidence_history)
  show "grounded_claims (snd (evidence_trace ! 2))
     = Some [JObj [(''claim'', JStr ''cardiac arrest'')]]"
    by (simp add: g evidence_claims)
  show "grounded_claims (snd (evidence_trace ! 3))
     = Some [JObj [(''claim'', JStr ''cardiac arrest'')], JObj [(''claim'', JStr ''start CPR'')]]"
    by (simp add: g evidence_claims)
qed

theorem lists_append_only_witness:
  "(snd (evidence_trace ! 2), Protocol, snd (evidence_trace ! 3))
     \<in> set (transitions demo_state (fst (run_from evidence_agents 25 Supervisor demo_state))) \<and>
   Protocol \<noteq> Supervisor \<and> Protocol \<noteq> Triage \<and>
   getd (agent_history (snd (evidence_trace ! 2))) [] = [''supervisor'', ''geo'', ''triage''] \<and>
   getd (agent_history (snd (evidence_trace ! 3))) []
     = [''supervisor'', ''geo'', ''triage'', ''protocol''] \<and>
   getd (grounded_claims (snd (evidence_trace ! 2))) []
     = [JObj [(''claim'', JStr ''cardiac arrest'')]] \<and>
   getd (grounded_claims (snd (evidence_trace ! 3))) []
     = [JObj [(''claim'', JStr ''cardiac arrest'')], JObj [(''claim'', JStr ''start CPR'')]] \<and>
   prefix (getd (agent_history (snd (evidence_trace ! 2))) [])
     (getd (agent_history (snd (evidence_trace ! 3))) []) \<and>
   prefix (getd (grounded_claims (snd (evidence_trace ! 2))) [])
     (getd (grounded_claims (snd (evidence_trace ! 3))) []) \<and>
   prefix (getd (ambiguities (snd (evidence_trace ! 2))) [])
     (getd (ambiguities (snd (evidence_trace ! 3))) []) \<and>
   recommended_assets (snd (evidence_trace ! 3)) = recommended_assets (snd (evidence_trace ! 2)) \<and>
   (snd (evidence_trace ! 1), Triage, snd (evidence_trace ! 2))
     \<in> set (transitions demo_state (fst (run_from evidence_agents 25 Supervisor demo_state))) \<and>
   (\<exists>ao. evidence_agents Triage (snd (evidence_trace ! 1)) = Inr ao \<and>
         recommended_assets (snd (evidence_trace ! 2))
           = Some (getd (res_recommended_assets (out_result ao)) []))"
proof -
  have p: "(snd (evidence_trace ! 2), Protocol, snd (evidence_trace ! 3))
     \<in> set (transitions demo_state (fst (run_from evidence_agents 25 Supervisor demo_state)))"
    using evidence_steps(1) by (simp add: evidence_trace_def)
  have t: "(snd (evidence_trace ! 1), Triage, snd (evidence_trace ! 2))
     \<in> set (transitions demo_state (fst (run_from evidence_agents 25 Supervisor demo_state)))"
    using evidence_steps(2) by (simp add: evidence_trace_def)
  note P = lists_append_only [of "snd (evidence_trace ! 2)" Protocol "snd (evidence_trace ! 3)"
      demo_state evidence_agents 25 Supervisor, rule_format, OF p]
  note T = lists_append_only [of "snd (evidence_trace ! 1)" Triage "snd (evidence_trace ! 2)"
      demo_state evidence_agents 25 Supervisor, rule_format, OF t]
  from P have P1: "prefix (getd (agent_history (snd (evidence_trace ! 2))) [])
     (getd (agent_history (snd (evidence_trace ! 3))) [])" by blast
  from P have P2: "prefix (getd (grounded_claims (snd (evidence_trace ! 2))) [])
     (getd (grounded_claims (snd (evidence_trace ! 3))) [])" by blast
  from P have P3: "prefix (getd (ambiguities (snd (evidence_trace ! 2))) [])
     (getd (ambiguities (snd (evidence_trace ! 3))) [])" by simp
  from P have P4: "recommended_assets (snd (evidence_trace ! 3))
     = recommended_assets (snd (evidence_trace ! 2))" by simp
  from T have T1: "\<exists>ao. evidence_agents Triage (snd (evidence_trace ! 1)) = Inr ao \<and>
         recommended_assets (snd (evidence_trace ! 2))
           = Some (getd (res_recommended_assets (out_result ao)) [])" by simp
  from p t P1 P2 P3 P4 T1 show ?thesis by (simp add: evidence_fields getd_def)
qed

text \<open>
  The claim as stated fails: a second triage pass replaces the assets of the first.
\<close>

theorem lists_append_only_counterexample:
  "map fst (fst (run_from reassess_agents 25 Supervisor demo_state))
     = [Supervisor, Triage, Protocol, Reflector, Triage, Protocol, Reflector, Hitl] \<and>
   map (recommended_assets \<circ> snd) (fst (run_from reassess_agents 25 Supervisor demo_state))
     = [Some [],
        Some [JObj [(''type'', JStr ''ALS_Ambulance''), (''quantity'', JNum 1)]],
        Some [JObj [(''type'', JStr ''ALS_Ambulance''), (''quantity'', JNum 1)]],
        Some [JObj [(''type'', JStr ''ALS_Ambulance''), (''quantity'', JNum 1)]],
        Some [JObj [(''type'', JStr ''Fire_Engine''), (''quantity'', JNum 2)]],
        Some [JObj [(''type'', JStr ''Fire_Engine''), (''quantity'', JNum 2)]],
        Some [JObj [(''type'', JStr ''Fire_Engine''), (''quantity'', JNum 2)]],
        Some [JObj [(''type'', JStr ''Fire_Engine''), (''quantity'', JNum 2)]]] \<and>
   \<not> prefix [JObj [(''type'', JStr ''ALS_Ambulance''), (''quantity'', JNum 1)]]
       [JObj [(''type'', JStr ''Fire_Engine''), (''quantity'', JNum 2)]]"
  by (simp add: eval_defs)

section \<open>Where the final recommendation is assembled\<close>

lemma run_from_recommendation_kept:
  "(n', s') \<in> set (fst (run_from A limit n s)) \<Longrightarrow> n' \<noteq> Hitl \<Longrightarrow>
     final_recommendation s' = final_recommendation s"
proof (induction limit arbitrary: n s)
  case 0
  then show ?case by simp
next
  case (Suc limit)
  show ?case
  proof (cases "graph_step A n s")
    case (Inl e)
    with Suc.prems show ?thesis by (simp add: run_from_fail)
  next
    case (Inr p)
    obtain s1 t where p: "p = (s1, t)" by (cases p)
    show ?thesis
    proof (cases t)
      case None
      with Inr p have "n = Hitl" "s1 = hitl_node s" by (simp_all add: graph_step_END)
      with Suc.prems show ?thesis by (simp add: run_from_Hitl del: run_from.simps)
    next
      case (Some n1)
      with Inr p have st: "graph_step A n s = Inr (s1, Some n1)" by simp
      then have nh: "n \<noteq> Hitl" by (rule graph_step_to_Hitl_from)
      from graph_step_final [OF nh st]
      have keep: "final_recommendation s1 = final_recommendation s" by simp
      from Suc.prems have "(n', s') = (n, s1) \<or> (n', s') \<in> set (fst (run_from A limit n1 s1))"
        by (simp add: run_from_step [OF st] del: run_from.simps)
      then show ?thesis
      proof
        assume "(n', s') = (n, s1)"
        with keep show ?thesis by simp
      next
        assume "(n', s') \<in> set (fst (run_from A limit n1 s1))"
        from Suc.IH [OF this Suc.prems(2)] keep show ?thesis by simp
      qed
    qed
  qed
qed

lemma run_node_history:
  "n \<noteq> Hitl \<Longrightarrow> run_node A n s = Inr s1 \<Longrightarrow>
     agent_history s1 = Some (getd (agent_history s) [] @ [node_name n])"
  by (cases n) (auto simp: node_defs Let_def split: sum.splits)

lemma graph_step_history:
  assumes "n \<noteq> Hitl" "graph_step A n s = Inr (s', t)"
  shows "agent_history s' = Some (getd (agent_history s) [] @ [node_name n])"
  using run_node_history [OF assms(1) graph_step_node [OF assms(2)]] .

lemma run_from_history:
  "snd (run_from A limit n s) = Inr sf \<Longrightarrow>
     getd (agent_history sf) [] =
       getd (agent_history s) [] @
       map node_name (butlast (map fst (fst (run_from A limit n s))))"
proof (induction limit arbitrary: n s)
  case 0
  then show ?case by simp
next
  case (Suc limit)
  show ?case
  proof (cases "graph_step A n s")
    case (Inl e)
    with Suc.prems show ?thesis by (simp add: run_from_fail)
  next
    case (Inr p)
    obtain s1 t where p: "p = (s1, t)" by (cases p)
    show ?thesis
    proof (cases t)
      case None
      with Inr p have "n = Hitl" "s1 = hitl_node s" by (simp_all add: graph_step_END)
      with Suc.prems show ?thesis
        by (auto simp: run_from_Hitl hitl_node_def simp del: run_from.simps)
    next
      case (Some n1)
      with Inr p have st: "graph_step A n s = Inr (s1, Some n1)" by simp
      then have nh: "n \<noteq> Hitl" by (rule graph_step_to_Hitl_from)
      from Suc.prems have r: "snd (run_from A limit n1 s1) = Inr sf"
        by (simp add: run_from_step [OF st] del: run_from.simps)
      with run_from_shape [of A limit n1 s1] have ne: "fst (run_from A limit n1 s1) \<noteq> []"
        by auto
      from Suc.IH [OF r]
      have "getd (agent_history sf) [] =
              getd (agent_history s1) [] @
              map node_name (butlast (map fst (fst (run_from A limit n1 s1))))" .
      with graph_step_history [OF nh st] ne show ?thesis
        by (simp add: run_from_step [OF st] getd_def del: run_from.simps)
    qed
  qed
qed

text \<open>A run that completes had steps left and executed its first node.\<close>

lemma run_from_completed:
  assumes "snd (run_from A limit n s) = Inr sf"
  shows "\<exists>k s' t. limit = Suc k \<and> graph_step A n s = Inr (s', t) \<and>
           (t = None \<and> sf = s' \<and> fst (run_from A limit n s) = [(n, s')] \<or>
            (\<exists>n'. t = Some n' \<and> snd (run_from A k n' s') = Inr sf \<and>
                  fst (run_from A limit n s) = (n, s') # fst (run_from A k n' s') \<and>
                  fst (run_from A k n' s') \<noteq> []))"
proof (cases limit)
  case 0
  with assms show ?thesis by simp
next
  case (Suc k)
  show ?thesis
  proof (cases "graph_step A n s")
    case (Inl e)
    with assms Suc show ?thesis by simp
  next
    case (Inr p)
    obtain s' t where p: "p = (s', t)" by (cases p)
    show ?thesis
    proof (cases t)
      case None
      with Inr p assms Suc show ?thesis by simp
    next
      case (Some n')
      with Inr p have st: "graph_step A n s = Inr (s', Some n')" by simp
      from assms Suc have r: "snd (run_from A k n' s') = Inr sf"
        by (simp add: run_from_step [OF st] del: run_from.simps)
      with run_from_shape [of A k n' s'] have "fst (run_from A k n' s') \<noteq> []" by auto
      with st r Suc show ?thesis by (simp add: run_from_step [OF st] del: run_from.simps)
    qed
  qed
qed

lemma follow_target:
  "follow edges r s = Inr (s', Some n) \<Longrightarrow> n \<in> snd ` set edges"
  by (auto simp: follow_def split: option.splits dest: map_of_SomeD intro: rev_image_eqI)

lemma graph_step_Supervisor_target:
  assumes "graph_step A Supervisor s = Inr (s', Some n)"
  shows "n \<in> {Triage, Geo, Vision, Hitl}"
proof -
  from assms obtain s1 where
    "follow edges_supervisor (route_after_supervisor s1) s1 = Inr (s', Some n)"
    by (auto split: sum.splits)
  from follow_target [OF this] show ?thesis by (auto simp: edges_supervisor_def)
qed

lemma graph_step_Geo_target:
  assumes "graph_step A Geo s = Inr (s', Some n)"
  shows "n \<in> {Triage, Hitl}"
proof -
  from assms obtain s1 where
    "follow edges_geo (route_after_geo s1) s1 = Inr (s', Some n)"
    by (auto split: sum.splits)
  from follow_target [OF this] show ?thesis by (auto simp: edges_geo_def)
qed

lemma graph_step_Vision_target:
  assumes "graph_step A Vision s = Inr (s', Some n)"
  shows "n \<in> {Triage, Hitl}"
proof -
  from assms obtain s1 where
    "follow edges_vision (route_after_vision s1) s1 = Inr (s', Some n)"
    by (auto split: sum.splits)
  from follow_target [OF this] show ?thesis by (auto simp: edges_vision_def)
qed

text \<open>Why a run goes to the checkpoint without triage, and what it has left untouched.\<close>

lemma supervisor_to_Hitl:
  assumes "graph_step A Supervisor s = Inr (s1, Some Hitl)"
  shows "\<exists>ao. A Supervisor s = Inr ao \<and>
           (getd (res_intent (out_result ao)) ''unclear'' = ''unclear'' \<or>
            out_requires_human_approval ao)"
proof -
  from assms obtain ao where ao: "A Supervisor s = Inr ao"
    by (auto simp: run_supervisor_def split: sum.splits)
  from assms ao have "map_of edges_supervisor (route_after_supervisor s1) = Some Hitl"
    "intent s1 = Some (getd (res_intent (out_result ao)) ''unclear'')"
    "requires_human_approval s1 = Some (out_requires_human_approval ao)"
    by (auto simp: run_supervisor_def Let_def dest: follow_Inr)
  then have "getd (res_intent (out_result ao)) ''unclear'' = ''unclear'' \<or>
            out_requires_human_approval ao"
    by (auto simp: edges_supervisor_def route_after_supervisor_def Let_def getd_def truthy_def
          split: if_splits)
  with ao show ?thesis by blast
qed

lemma geo_to_Hitl:
  assumes "graph_step A Geo s = Inr (s1, Some Hitl)"
  shows "\<exists>ao. A Geo s = Inr ao \<and> out_requires_more_info ao"
proof -
  from assms obtain ao where ao: "A Geo s = Inr ao"
    by (auto simp: run_geo_def split: sum.splits)
  from assms ao have "map_of edges_geo (route_after_geo s1) = Some Hitl"
    "requires_more_info s1 = Some (out_requires_more_info ao)"
    by (auto simp: run_geo_def Let_def dest: follow_Inr)
  then have "out_requires_more_info ao"
    by (auto simp: edges_geo_def route_after_geo_def truthy_def split: if_splits)
  with ao show ?thesis by blast
qed

lemma vision_to_Hitl:
  assumes "graph_step A Vision s = Inr (s1, Some Hitl)"
  shows "\<exists>ao. A Vision s = Inr ao \<and> out_requires_more_info ao"
proof -
  from assms obtain ao where ao: "A Vision s = Inr ao"
    by (auto simp: run_vision_def split: sum.splits)
  from assms ao have "map_of edges_vision (route_after_vision s1) = Some Hitl"
    "requires_more_info s1 = Some (out_requires_more_info ao)"
    by (auto simp: run_vision_def Let_def dest: follow_Inr)
  then have "out_requires_more_info ao"
    by (auto simp: edges_vision_def route_after_vision_def truthy_def split: if_splits)
  with ao show ?thesis by blast
qed

lemma run_node_priority:
  "n \<in> {Supervisor, Geo, Vision} \<Longrightarrow> run_node A n s = Inr s1 \<Longrightarrow> priority s1 = priority s"
  by (cases n) (auto simp: node_defs Let_def split: sum.splits)

lemma graph_step_priority:
  "n \<in> {Supervisor, Geo, Vision} \<Longrightarrow> graph_step A n s = Inr (s1, t) \<Longrightarrow>
     priority s1 = priority s"
  using run_node_priority graph_step_node by blast

lemma run_from_Triage_in:
  assumes "snd (run_from A limit Triage s) = Inr sf"
  shows "\<exists>s2 rest. fst (run_from A limit Triage s) = (Triage, s2) # rest \<and> rest \<noteq> []"
proof -
  from run_from_completed [OF assms] obtain k s' t where
    st: "graph_step A Triage s = Inr (s', t)" and
    c: "t = None \<and> sf = s' \<and> fst (run_from A limit Triage s) = [(Triage, s')] \<or>
        (\<exists>n'. t = Some n' \<and> snd (run_from A k n' s') = Inr sf \<and>
              fst (run_from A limit Triage s) = (Triage, s') # fst (run_from A k n' s') \<and>
              fst (run_from A k n' s') \<noteq> [])" by blast
  from st have "t \<noteq> None" using graph_step_END [of A Triage s s'] by auto
  with c show ?thesis by auto
qed

lemma run_from_Hitl_only:
  assumes "snd (run_from A limit Hitl s) = Inr sf"
  shows "sf = hitl_node s \<and> fst (run_from A limit Hitl s) = [(Hitl, sf)]"
proof (cases limit)
  case 0
  with assms show ?thesis by simp
next
  case (Suc k)
  with assms show ?thesis by auto
qed

text \<open>
  A completed run either executed triage or went to the checkpoint straight from the
  supervisor, or from geo or vision right after the supervisor.
\<close>

lemma run_short_or_triage:
  assumes "snd (run_from A limit Supervisor s0) = Inr sf"
  shows "Triage \<in> set (butlast (map fst (fst (run_from A limit Supervisor s0)))) \<or>
         (\<exists>s1. fst (run_from A limit Supervisor s0) = [(Supervisor, s1), (Hitl, sf)] \<and>
               sf = hitl_node s1 \<and>
               graph_step A Supervisor s0 = Inr (s1, Some Hitl)) \<or>
         (\<exists>m s1 s2. m \<in> {Geo, Vision} \<and>
               fst (run_from A limit Supervisor s0) = [(Supervisor, s1), (m, s2), (Hitl, sf)] \<and>
               sf = hitl_node s2 \<and>
               graph_step A Supervisor s0 = Inr (s1, Some m) \<and>
               graph_step A m s1 = Inr (s2, Some Hitl))"
proof -
  from run_from_completed [OF assms] obtain k s1 t where
    st: "graph_step A Supervisor s0 = Inr (s1, t)" and
    c: "t = None \<and> sf = s1 \<and> fst (run_from A limit Supervisor s0) = [(Supervisor, s1)] \<or>
        (\<exists>n'. t = Some n' \<and> snd (run_from A k n' s1) = Inr sf \<and>
              fst (run_from A limit Supervisor s0)
                = (Supervisor, s1) # fst (run_from A k n' s1) \<and>
              fst (run_from A k n' s1) \<noteq> [])" by blast
  from st have "t \<noteq> None" using graph_step_END [of A Supervisor s0 s1] by auto
  with c obtain n1 where t: "t = Some n1" and
    r1: "snd (run_from A k n1 s1) = Inr sf" and
    T: "fst (run_from A limit Supervisor s0) = (Supervisor, s1) # fst (run_from A k n1 s1)"
    by auto
  from st t have st1: "graph_step A Supervisor s0 = Inr (s1, Some n1)" by simp
  from graph_step_Supervisor_target [OF st1]
  consider "n1 = Triage" | "n1 = Hitl" | "n1 = Geo" | "n1 = Vision" by auto
  then show ?thesis
  proof cases
    case 1
    with run_from_Triage_in [of A k s1 sf] r1 obtain s2 rest where
      "fst (run_from A k n1 s1) = (Triage, s2) # rest" "rest \<noteq> []" by auto
    with T show ?thesis by simp
  next
    case 2
    with run_from_Hitl_only [of A k s1 sf] r1 T st1 show ?thesis by simp
  next
    case 3
    from run_from_completed [OF r1] 3 obtain k' s2 t2 where
      st2: "graph_step A Geo s1 = Inr (s2, t2)" and
      c2: "t2 = None \<and> sf = s2 \<and> fst (run_from A k Geo s1) = [(Geo, s2)] \<or>
        (\<exists>n'. t2 = Some n' \<and> snd (run_from A k' n' s2) = Inr sf \<and>
              fst (run_from A k Geo s1) = (Geo, s2) # fst (run_from A k' n' s2) \<and>
              fst (run_from A k' n' s2) \<noteq> [])" by blast
    from st2 have "t2 \<noteq> None" using graph_step_END [of A Geo s1 s2] by auto
    with c2 obtain n2 where t2: "t2 = Some n2" and
      r2: "snd (run_from A k' n2 s2) = Inr sf" and
      T2: "fst (run_from A k Geo s1) = (Geo, s2) # fst (run_from A k' n2 s2)" by auto
    from st2 t2 have st2': "graph_step A Geo s1 = Inr (s2, Some n2)" by simp
    from graph_step_Geo_target [OF st2'] consider "n2 = Triage" | "n2 = Hitl" by auto
    then show ?thesis
    proof cases
      case 1
      with run_from_Triage_in [of A k' s2 sf] r2 obtain s3 rest where
        "fst (run_from A k' n2 s2) = (Triage, s3) # rest" "rest \<noteq> []" by auto
      with T T2 3 show ?thesis by simp
    next
      case 2
      with run_from_Hitl_only [of A k' s2 sf] r2 have
        "sf = hitl_node s2" "fst (run_from A k' n2 s2) = [(Hitl, sf)]" by simp_all
      with T T2 3 2 st1 st2' have
        "Geo \<in> {Geo, Vision} \<and>
         fst (run_from A limit Supervisor s0) = [(Supervisor, s1), (Geo, s2), (Hitl, sf)] \<and>
         sf = hitl_node s2 \<and>
         graph_step A Supervisor s0 = Inr (s1, Some Geo) \<and>
         graph_step A Geo s1 = Inr (s2, Some Hitl)" by simp
      then show ?thesis by blast
    qed
  next
    case 4
    from run_from_completed [OF r1] 4 obtain k' s2 t2 where
      st2: "graph_step A Vision s1 = Inr (s2, t2)" and
      c2: "t2 = None \<and> sf = s2 \<and> fst (run_from A k Vision s1) = [(Vision, s2)] \<or>
        (\<exists>n'. t2 = Some n' \<and> snd (run_from A k' n' s2) = Inr sf \<and>
              fst (run_from A k Vision s1) = (Vision, s2) # fst (run_from A k' n' s2) \<and>
              fst (run_from A k' n' s2) \<noteq> [])" by blast
    from st2 have "t2 \<noteq> None" using graph_step_END [of A Vision s1 s2] by auto
    with c2 obtain n2 where t2: "t2 = Some n2" and
      r2: "snd (run_from A k' n2 s2) = Inr sf" and
      T2: "fst (run_from A k Vision s1) = (Vision, s2) # fst (run_from A k' n2 s2)" by auto
    from st2 t2 have st2': "graph_step A Vision s1 = Inr (s2, Some n2)" by simp
    from graph_step_Vision_target [OF st2'] consider "n2 = Triage" | "n2 = Hitl" by auto
    then show ?thesis
    proof cases
      case 1
      with run_from_Triage_in [of A k' s2 sf] r2 obtain s3 rest where
        "fst (run_from A k' n2 s2) = (Triage, s3) # rest" "rest \<noteq> []" by auto
      with T T2 4 show ?thesis by simp
    next
      case 2
      with run_from_Hitl_only [of A k' s2 sf] r2 have
        "sf = hitl_node s2" "fst (run_from A k' n2 s2) = [(Hitl, sf)]" by simp_all
      with T T2 4 2 st1 st2' have
        "Vision \<in> {Geo, Vision} \<and>
         fst (run_from A limit Supervisor s0) = [(Supervisor, s1), (Vision, s2), (Hitl, sf)] \<and>
         sf = hitl_node s2 \<and>
         graph_step A Supervisor s0 = Inr (s1, Some Vision) \<and>
         graph_step A Vision s1 = Inr (s2, Some Hitl)" by simp
      then show ?thesis by blast
    qed
  qed
qed

lemma build_final_recommendation_priority:
  "map_of (build_final_recommendation s) ''priority'' = Some (JStr (getd (priority s) ''P3''))"
  by (simp add: build_final_recommendation_def)

text \<open>
  C9 (as the code has it). In a run that completes, the final recommendation is assembled
  once, by the checkpoint, the last node executed, from the record the node before it left:
  every record before the checkpoint still has the final recommendation of the initial
  record. The history of the final record is the initial history followed by the names of
  the nodes executed before the checkpoint. Triage need not be among them. Either the run
  executed triage; or the supervisor alone ran, its agent having returned the intent
  \<open>unclear\<close> (or none) or asked for approval; or the supervisor and then geo (or vision)
  ran, that agent having asked for more information. In the runs without triage no node has
  written the priority, so the recommendation carries the priority of the initial record
  (\<open>P3\<close> when it has none).
\<close>

theorem final_recommendation_once:
  "run A limit s0 = Inr sf \<longrightarrow>
     (\<exists>tr. fst (run_from A limit Supervisor s0) = tr @ [(Hitl, sf)] \<and> tr \<noteq> [] \<and>
        Hitl \<notin> fst ` set tr \<and>
        (\<forall>p \<in> set tr. final_recommendation (snd p) = final_recommendation s0) \<and>
        sf = hitl_node (snd (last tr)) \<and>
        final_recommendation sf = Some (build_final_recommendation (snd (last tr))) \<and>
        getd (agent_history sf) [] = getd (agent_history s0) [] @ map node_name (map fst tr) \<and>
        (Triage \<in> fst ` set tr \<or>
         (map fst tr = [Supervisor] \<and>
          (\<exists>ao. A Supervisor s0 = Inr ao \<and>
                (getd (res_intent (out_result ao)) ''unclear'' = ''unclear'' \<or>
                 out_requires_human_approval ao)) \<and>
          map_of (build_final_recommendation (snd (last tr))) ''priority''
            = Some (JStr (getd (priority s0) ''P3''))) \<or>
         (map fst tr = [Supervisor, Geo] \<and>
          (\<exists>ao. A Geo (snd (hd tr)) = Inr ao \<and> out_requires_more_info ao) \<and>
          map_of (build_final_recommendation (snd (last tr))) ''priority''
            = Some (JStr (getd (priority s0) ''P3''))) \<or>
         (map fst tr = [Supervisor, Vision] \<and>
          (\<exists>ao. A Vision (snd (hd tr)) = Inr ao \<and> out_requires_more_info ao) \<and>
          map_of (build_final_recommendation (snd (last tr))) ''priority''
            = Some (JStr (getd (priority s0) ''P3'')))))"
proof
  assume "run A limit s0 = Inr sf"
  then have r: "snd (run_from A limit Supervisor s0) = Inr sf" by (simp add: run_def)
  with run_from_shape [of A limit Supervisor s0] obtain tr where
    tr: "fst (run_from A limit Supervisor s0) = tr @ [(Hitl, sf)]" "Hitl \<notin> fst ` set tr"
      "sf = hitl_node (if tr = [] then s0 else snd (last tr))" by auto
  have bl: "butlast (map fst (fst (run_from A limit Supervisor s0))) = map fst tr"
    using tr(1) by (simp add: butlast_append)
  have kept: "\<forall>p \<in> set tr. final_recommendation (snd p) = final_recommendation s0"
  proof
    fix p assume p: "p \<in> set tr"
    then have "(fst p, snd p) \<in> set (fst (run_from A limit Supervisor s0))"
      using tr(1) by simp
    moreover from p tr(2) have "fst p \<noteq> Hitl" by (metis imageI)
    ultimately show "final_recommendation (snd p) = final_recommendation s0"
      by (rule run_from_recommendation_kept)
  qed
  from run_from_history [OF r] bl
  have hist: "getd (agent_history sf) [] =
                getd (agent_history s0) [] @ map node_name (map fst tr)" by simp
  have cases: "tr \<noteq> [] \<and>
        (Triage \<in> fst ` set tr \<or>
         (map fst tr = [Supervisor] \<and>
          (\<exists>ao. A Supervisor s0 = Inr ao \<and>
                (getd (res_intent (out_result ao)) ''unclear'' = ''unclear'' \<or>
                 out_requires_human_approval ao)) \<and>
          map_of (build_final_recommendation (snd (last tr))) ''priority''
            = Some (JStr (getd (priority s0) ''P3''))) \<or>
         (map fst tr = [Supervisor, Geo] \<and>
          (\<exists>ao. A Geo (snd (hd tr)) = Inr ao \<and> out_requires_more_info ao) \<and>
          map_of (build_final_recommendation (snd (last tr))) ''priority''
            = Some (JStr (getd (priority s0) ''P3''))) \<or>
         (map fst tr = [Supervisor, Vision] \<and>
          (\<exists>ao. A Vision (snd (hd tr)) = Inr ao \<and> out_requires_more_info ao) \<and>
          map_of (build_final_recommendation (snd (last tr))) ''priority''
            = Some (JStr (getd (priority s0) ''P3''))))"
    using run_short_or_triage [OF r]
  proof (elim disjE exE conjE)
    assume "Triage \<in> set (butlast (map fst (fst (run_from A limit Supervisor s0))))"
    with bl have "Triage \<in> fst ` set tr" by simp
    then show ?thesis by auto
  next
    fix s1
    assume T: "fst (run_from A limit Supervisor s0) = [(Supervisor, s1), (Hitl, sf)]"
      and st: "graph_step A Supervisor s0 = Inr (s1, Some Hitl)"
    from T tr(1) have t: "tr = [(Supervisor, s1)]" by simp
    have "priority s1 = priority s0" using graph_step_priority [OF _ st] by simp
    with t supervisor_to_Hitl [OF st] show ?thesis
      by (simp add: build_final_recommendation_priority)
  next
    fix m s1 s2
    assume m: "m \<in> {Geo, Vision}"
      and T: "fst (run_from A limit Supervisor s0) = [(Supervisor, s1), (m, s2), (Hitl, sf)]"
      and st: "graph_step A Supervisor s0 = Inr (s1, Some m)"
      and st2: "graph_step A m s1 = Inr (s2, Some Hitl)"
    from T tr(1) have t: "tr = [(Supervisor, s1), (m, s2)]" by simp
    have "priority s1 = priority s0" using graph_step_priority [OF _ st] by simp
    moreover have "priority s2 = priority s1" using graph_step_priority [OF _ st2] m by auto
    ultimately have pr: "map_of (build_final_recommendation (snd (last tr))) ''priority''
            = Some (JStr (getd (priority s0) ''P3''))"
      using t by (simp add: build_final_recommendation_priority)
    from m consider "m = Geo" | "m = Vision" by auto
    then show ?thesis
    proof cases
      case 1
      with st2 geo_to_Hitl [of A s1 s2] t pr show ?thesis by simp
    next
      case 2
      with st2 vision_to_Hitl [of A s1 s2] t pr show ?thesis by simp
    qed
  qed
  then have ne: "tr \<noteq> []" by simp
  with tr(3) have sf: "sf = hitl_node (snd (last tr))" by simp
  then have fr: "final_recommendation sf = Some (build_final_recommendation (snd (last tr)))"
    by (simp add: hitl_node_def)
  show "\<exists>tr. fst (run_from A limit Supervisor s0) = tr @ [(Hitl, sf)] \<and> tr \<noteq> [] \<and>
        Hitl \<notin> fst ` set tr \<and>
        (\<forall>p \<in> set tr. final_recommendation (snd p) = final_recommendation s0) \<and>
        sf = hitl_node (snd (last tr)) \<and>
        final_recommendation sf = Some (build_final_recommendation (snd (last tr))) \<and>
        getd (agent_history sf) [] = getd (agent_history s0) [] @ map node_name (map fst tr) \<and>
        (Triage \<in> fst ` set tr \<or>
         (map fst tr = [Supervisor] \<and>
          (\<exists>ao. A Supervisor s0 = Inr ao \<and>
                (getd (res_intent (out_result ao)) ''unclear'' = ''unclear'' \<or>
                 out_requires_human_approval ao)) \<and>
          map_of (build_final_recommendation (snd (last tr))) ''priority''
            = Some (JStr (getd (priority s0) ''P3''))) \<or>
         (map fst tr = [Supervisor, Geo] \<and>
          (\<exists>ao. A Geo (snd (hd tr)) = Inr ao \<and> out_requires_more_info ao) \<and>
          map_of (build_final_recommendation (snd (last tr))) ''priority''
            = Some (JStr (getd (priority s0) ''P3''))) \<or>
         (map fst tr = [Supervisor, Vision] \<and>
          (\<exists>ao. A Vision (snd (hd tr)) = Inr ao \<and> out_requires_more_info ao) \<and>
          map_of (build_final_recommendation (snd (last tr))) ''priority''
            = Some (JStr (getd (priority s0) ''P3''))))"
  proof (intro exI conjI)
    show "fst (run_from A limit Supervisor s0) = tr @ [(Hitl, sf)]" by (rule tr(1))
    show "tr \<noteq> []" by (rule ne)
    show "Hitl \<notin> fst ` set tr" by (rule tr(2))
    show "\<forall>p \<in> set tr. final_recommendation (snd p) = final_recommendation s0"
      by (rule kept)
    show "sf = hitl_node (snd (last tr))" by (rule sf)
    show "final_recommendation sf = Some (build_final_recommendation (snd (last tr)))"
      by (rule fr)
    show "getd (agent_history sf) [] =
            getd (agent_history s0) [] @ map node_name (map fst tr)" by (rule hist)
    from cases show "Triage \<in> fst ` set tr \<or>
         (map fst tr = [Supervisor] \<and>
          (\<exists>ao. A Supervisor s0 = Inr ao \<and>
                (getd (res_intent (out_result ao)) ''unclear'' = ''unclear'' \<or>
                 out_requires_human_approval ao)) \<and>
          map_of (build_final_recommendation (snd (last tr))) ''priority''
            = Some (JStr (getd (priority s0) ''P3''))) \<or>
         (map fst tr = [Supervisor, Geo] \<and>
          (\<exists>ao. A Geo (snd (hd tr)) = Inr ao \<and> out_requires_more_info ao) \<and>
          map_of (build_final_recommendation (snd (last tr))) ''priority''
            = Some (JStr (getd (priority s0) ''P3''))) \<or>
         (map fst tr = [Supervisor, Vision] \<and>
          (\<exists>ao. A Vision (snd (hd tr)) = Inr ao \<and> out_requires_more_info ao) \<and>
          map_of (build_final_recommendation (snd (last tr))) ''priority''
            = Some (JStr (getd (priority s0) ''P3'')))" by (rule conjunct2)
  qed
qed

lemma unclear_nodes:
  "map fst (fst (run_from unclear_agents 25 Supervisor demo_state)) = [Supervisor, Hitl]"
  by (simp add: eval_defs unclear_agents_def)

theorem final_recommendation_once_witness:
  "\<exists>sf tr. run unclear_agents 25 demo_state = Inr sf \<and>
     fst (run_from unclear_agents 25 Supervisor demo_state) = tr @ [(Hitl, sf)] \<and>
     map fst tr = [Supervisor] \<and>
     (\<forall>p \<in> set tr. final_recommendation (snd p) = final_recommendation demo_state) \<and>
     final_recommendation sf = Some (build_final_recommendation (snd (last tr))) \<and>
     getd (agent_history sf) [] = [''supervisor''] \<and>
     map_of (build_final_recommendation (snd (last tr))) ''priority'' = Some (JStr ''P3'')"
proof -
  from unclear_run obtain sf where sf: "run unclear_agents 25 demo_state = Inr sf" by blast
  from final_recommendation_once [of unclear_agents 25 demo_state sf, rule_format, OF sf]
  obtain tr where
    tr: "fst (run_from unclear_agents 25 Supervisor demo_state) = tr @ [(Hitl, sf)]" and
    k: "\<forall>p \<in> set tr. final_recommendation (snd p) = final_recommendation demo_state" and
    f: "final_recommendation sf = Some (build_final_recommendation (snd (last tr)))" and
    h: "getd (agent_history sf) []
          = getd (agent_history demo_state) [] @ map node_name (map fst tr)"
    by blast
  from tr unclear_nodes have n: "map fst tr = [Supervisor]" by simp
  have p: "map_of (build_final_recommendation (snd (last tr))) ''priority''
             = Some (JStr (getd (priority (snd (last tr))) ''P3''))"
    by (rule build_final_recommendation_priority)
  from n obtain s1 where t1: "tr = [(Supervisor, s1)]" by (cases tr) auto
  have st: "\<exists>t. graph_step unclear_agents Supervisor demo_state = Inr (s1, t)"
  proof -
    have "(demo_state, Supervisor, s1)
          \<in> set (transitions demo_state (fst (run_from unclear_agents 25 Supervisor demo_state)))"
      using tr t1 by simp
    then show ?thesis by (rule run_from_transitions)
  qed
  then obtain t where "graph_step unclear_agents Supervisor demo_state = Inr (s1, t)" by blast
  from graph_step_priority [OF _ this] have "priority s1 = Some ''P3''"
    by (simp add: demo_state_def create_initial_state_def)
  with p t1 have p3: "map_of (build_final_recommendation (snd (last tr))) ''priority''
             = Some (JStr ''P3'')" by (simp add: getd_def)
  from h n have h': "getd (agent_history sf) [] = [''supervisor'']"
    by (simp add: demo_state_def create_initial_state_def getd_def)
  show ?thesis
  proof (intro exI conjI)
    show "run unclear_agents 25 demo_state = Inr sf" by (rule sf)
    show "fst (run_from unclear_agents 25 Supervisor demo_state) = tr @ [(Hitl, sf)]"
      by (rule tr)
    show "map fst tr = [Supervisor]" by (rule n)
    show "\<forall>p \<in> set tr. final_recommendation (snd p) = final_recommendation demo_state"
      by (rule k)
    show "final_recommendation sf = Some (build_final_recommendation (snd (last tr)))"
      by (rule f)
    show "getd (agent_history sf) [] = [''supervisor'']" by (rule h')
    show "map_of (build_final_recommendation (snd (last tr))) ''priority''
            = Some (JStr ''P3'')" by (rule p3)
  qed
qed

text \<open>
  The claim as stated fails: when the supervisor's intent is unclear the run goes from the
  supervisor straight to the checkpoint, which assembles the final recommendation although
  triage never ran.
\<close>

theorem final_recommendation_without_triage_counterexample:
  "map fst (fst (run_from unclear_agents 25 Supervisor demo_state)) = [Supervisor, Hitl] \<and>
   run unclear_agents 25 demo_state
     = Inr (snd (last (fst (run_from unclear_agents 25 Supervisor demo_state)))) \<and>
   agent_history (snd (last (fst (run_from unclear_agents 25 Supervisor demo_state))))
     = Some [''supervisor''] \<and>
   final_recommendation (snd (last (fst (run_from unclear_agents 25 Supervisor demo_state))))
     = Some [ (''incident_id'', JStr ''INC-1''),
              (''priority'', JStr ''P3''),
              (''incident_type'', JStr ''Unknown''),
              (''recommended_assets'', JArr []),
              (''location'', JNull),
              (''address'', JNull),
              (''critical_instructions'', JStr []),
              (''recommended_sops'', JArr []),
              (''quality_score'', JNum float_0_7),
              (''gaps_detected'', JArr []),
              (''grounded_claims_count'', JNum 0) ]"
  by (simp add: eval_defs unclear_agents_def build_final_recommendation_def opt_str_def
        opt_json_def)

section \<open>The idempotency cache\<close>

lemma process_incident_cached:
  "\<not> force \<Longrightarrow> processed iid = Some cached \<Longrightarrow>
     process_incident sv processed iid q txt chan role loc transcript embeddings force
       = (cached, processed)"
  by (simp add: process_incident_def)

lemma process_incident_computed:
  "force \<or> processed iid = None \<Longrightarrow>
     process_incident sv processed iid q txt chan role loc transcript embeddings force =
       (case process_body sv iid q txt chan role loc transcript embeddings of
          Inr result \<Rightarrow> (result, processed(iid \<mapsto> result))
        | Inl e \<Rightarrow> (error_response iid (str_of e) (elapsed_ms sv), processed))"
  by (auto simp: process_incident_def)

lemma process_body_prod_fails:
  "mode sv \<noteq> ''test'' \<Longrightarrow>
   run (agents_of sv) (recursion_limit sv)
     (prod_initial_state iid q (case txt of None \<Rightarrow> q | Some t \<Rightarrow> if t = [] then q else t)
        chan role loc transcript embeddings (retrieve_context sv q loc embeddings)) = Inl e \<Longrightarrow>
   process_body sv iid q txt chan role loc transcript embeddings = Inl e"
  by (simp add: process_body_def process_prod_mode_def Let_def)

text \<open>
  C6 (as the code has it). A call that does not answer from the cache stores its result
  under the identifier exactly when the body of its \<open>try\<close> completes; when an exception
  reaches the handler of \<open>process_incident\<close> (in prod mode, whenever the workflow raises)
  the fallback is returned and the cache is left as it was. A call answered from the cache
  leaves the cache as it was.
\<close>

theorem cache_store:
  "(process_body sv iid q txt chan role loc transcript embeddings = Inr result \<longrightarrow>
      (force \<or> processed iid = None) \<longrightarrow>
      process_incident sv processed iid q txt chan role loc transcript embeddings force
        = (result, processed(iid \<mapsto> result))) \<and>
   (process_body sv iid q txt chan role loc transcript embeddings = Inl e \<longrightarrow>
      (force \<or> processed iid = None) \<longrightarrow>
      process_incident sv processed iid q txt chan role loc transcript embeddings force
        = (error_response iid (str_of e) (elapsed_ms sv), processed)) \<and>
   (mode sv \<noteq> ''test'' \<longrightarrow>
      run (agents_of sv) (recursion_limit sv)
        (prod_initial_state iid q (case txt of None \<Rightarrow> q | Some t \<Rightarrow> if t = [] then q else t)
           chan role loc transcript embeddings (retrieve_context sv q loc embeddings)) = Inl e
      \<longrightarrow> process_body sv iid q txt chan role loc transcript embeddings = Inl e) \<and>
   (\<not> force \<longrightarrow> processed iid = Some cached \<longrightarrow>
      process_incident sv processed iid q txt chan role loc transcript embeddings force
        = (cached, processed))"
  by (simp add: process_incident_computed process_incident_cached process_body_prod_fails)

lemma up_services_body:
  "\<exists>result. process_body up_services ''INC-1'' ''person collapsed'' None ''web'' ''dispatcher''
      None None None = Inr result"
  by (simp add: process_body_def process_prod_mode_def up_services_def Let_def
        prod_initial_state_def eval_defs unclear_agents_def)

lemma down_services_run:
  "run (agents_of down_services) (recursion_limit down_services) s
     = Inl (Error ''agent unavailable'')"
  by (simp add: run_def run_from_numeral down_services_def up_services_def
        run_supervisor_def)

lemma down_services_body:
  "process_body down_services ''INC-1'' ''person collapsed'' None ''web'' ''dispatcher''
      None None None = Inl (Error ''agent unavailable'')"
proof -
  have m: "mode down_services \<noteq> ''test''"
    by (simp add: down_services_def up_services_def)
  show ?thesis by (rule process_body_prod_fails [OF m down_services_run])
qed

theorem cache_store_witness:
  "(\<exists>result. demo_call up_services Map.empty False
       = (result, [''INC-1'' \<mapsto> result])) \<and>
   demo_call down_services Map.empty False
     = (error_response ''INC-1'' ''agent unavailable'' 12, Map.empty) \<and>
   demo_call down_services [''INC-1'' \<mapsto> [(''status'', JStr ''workflow_complete'')]] False
     = ([(''status'', JStr ''workflow_complete'')],
        [''INC-1'' \<mapsto> [(''status'', JStr ''workflow_complete'')]])"
proof (intro conjI)
  from up_services_body obtain result where
    r: "process_body up_services ''INC-1'' ''person collapsed'' None ''web'' ''dispatcher''
      None None None = Inr result" by blast
  from cache_store [of up_services "''INC-1''" "''person collapsed''" None "''web''"
      "''dispatcher''" None None None result False Map.empty] r
  show "\<exists>result. demo_call up_services Map.empty False = (result, [''INC-1'' \<mapsto> result])"
    by (simp add: demo_call_def)
next
  from cache_store [of down_services "''INC-1''" "''person collapsed''" None "''web''"
      "''dispatcher''" None None None _ False Map.empty "Error ''agent unavailable''"]
    down_services_body
  show "demo_call down_services Map.empty False
     = (error_response ''INC-1'' ''agent unavailable'' 12, Map.empty)"
    by (simp add: demo_call_def down_services_def up_services_def)
next
  from cache_store [of down_services "''INC-1''" "''person collapsed''" None "''web''"
      "''dispatcher''" None None None _ False
      "[''INC-1'' \<mapsto> [(''status'', JStr ''workflow_complete'')]]" _
      "[(''status'', JStr ''workflow_complete'')]"]
  show "demo_call down_services [''INC-1'' \<mapsto> [(''status'', JStr ''workflow_complete'')]] False
     = ([(''status'', JStr ''workflow_complete'')],
        [''INC-1'' \<mapsto> [(''status'', JStr ''workflow_complete'')]])"
    by (simp add: demo_call_def)
qed

text \<open>
  The claim as stated fails: when the agents are down the fallback is returned and nothing
  is stored under the identifier.
\<close>

theorem cache_store_counterexample:
  "fst (demo_call down_services Map.empty False)
     = error_response ''INC-1'' ''agent unavailable'' 12 \<and>
   snd (demo_call down_services Map.empty False) ''INC-1'' = None"
  using down_services_body
  by (simp add: demo_call_def process_incident_def down_services_def up_services_def)

section \<open>Replay\<close>







section \<open>Context retrieval\<close>

lemma map_of_dict_set:
  "map_of (dict_set k v d) k' = (if k' = k then Some v else map_of d k')"
  by (induction d) auto

lemma retrieve_context_fields:
  assumes "embed_text sv q = Inr (qe # rest)"
  shows "retrieve_context sv q loc embeddings =
     \<lparr> ctx_docs = attempt (hybrid_search sv ''incident_memory'' qe 5) [],
       ctx_sops = attempt (hybrid_search sv ''protocols_sops'' qe 5) [],
       ctx_landmarks =
         (if loc = None then attempt (hybrid_search sv ''landmark_index'' qe 5) [] else []),
       ctx_images =
         (case embeddings of
            Some (v # vs) \<Rightarrow> attempt (hybrid_search sv ''visual_evidence'' v 5) []
          | _ \<Rightarrow> []) \<rparr>"
  using assms
  by (simp add: retrieve_context_def Let_def split: option.splits list.splits)

lemma retrieve_context_all_fail:
  assumes "\<forall>collection v k. \<exists>e. hybrid_search sv collection v k = Inl e"
  shows "retrieve_context sv q loc embeddings =
           \<lparr> ctx_docs = [], ctx_sops = [], ctx_landmarks = [], ctx_images = [] \<rparr>"
proof -
  have a: "attempt (hybrid_search sv collection v k) [] = []" for collection v k
    using assms by (metis attempt_def sum.simps(5))
  show ?thesis
  proof (cases "embed_text sv q")
    case (Inl e)
    then show ?thesis by (simp add: retrieve_context_def)
  next
    case (Inr vs)
    show ?thesis
    proof (cases vs)
      case Nil
      with Inr show ?thesis by (simp add: retrieve_context_def)
    next
      case (Cons qe rest)
      with Inr have "embed_text sv q = Inr (qe # rest)" by simp
      from retrieve_context_fields [OF this] show ?thesis
        by (simp add: a split: option.splits list.splits)
    qed
  qed
qed

lemma test_mode_try_entries:
  assumes "test_mode_try sv iid prompt = Inr r"
  shows "map_of r ''status'' = Some (JStr ''test_complete'') \<and>
         (\<exists>p. map_of r ''priority'' = Some p \<and>
              map_of r ''requires_human_approval''
                = Some (JBool (p = JStr ''P1'' \<or> p = JStr ''P2'')))"
proof -
  from assms obtain response where g: "llm_generate sv prompt = Inr response"
    by (auto simp: test_mode_try_def split: sum.splits)
  from assms g obtain content where c: "map_of response ''content'' = Some (JStr content)"
    by (auto simp: test_mode_try_def split: option.splits json.splits)
  from assms g c obtain parsed where l: "json_loads sv content = Inr parsed"
    by (auto simp: test_mode_try_def split: sum.splits)
  from assms g c l obtain result where d: "as_dict parsed = Inr result"
    by (auto simp: test_mode_try_def split: sum.splits)
  from assms g c l d obtain usage where
    u: "as_dict (getd (map_of response ''usage'') (JObj [])) = Inr usage"
    by (auto simp: test_mode_try_def split: sum.splits)
  from assms g c l d u have
    st: "map_of r ''status'' = Some (JStr ''test_complete'')" and
    pr: "map_of r ''priority'' = Some (getd (map_of result ''priority'') (JStr ''P3''))" and
    ap: "map_of r ''requires_human_approval''
           = Some (JBool (getd (map_of result ''priority'') JNull
                          \<in> set [JStr ''P1'', JStr ''P2'']))"
    by (auto simp: test_mode_try_def)
  have "(getd (map_of result ''priority'') JNull \<in> set [JStr ''P1'', JStr ''P2'']) =
        (getd (map_of result ''priority'') (JStr ''P3'') = JStr ''P1'' \<or>
         getd (map_of result ''priority'') (JStr ''P3'') = JStr ''P2'')"
    by (cases "map_of result ''priority''") (auto simp: getd_def)
  with st pr ap show ?thesis by simp
qed

lemma error_response_entries:
  "map_of (error_response iid err ms) ''status'' = Some (JStr ''error'') \<and>
   map_of (error_response iid err ms) ''priority'' = Some (JStr ''P2'') \<and>
   map_of (error_response iid err ms) ''requires_human_approval'' = Some (JBool True)"
  by (simp add: error_response_def)

lemma process_test_mode_entries:
  assumes "process_test_mode sv iid q context = Inr r"
  shows "(\<exists>st. map_of r ''status'' = Some (JStr st) \<and> st \<in> {''test_complete'', ''error''}) \<and>
         (\<exists>p. map_of r ''priority'' = Some p \<and>
              map_of r ''requires_human_approval''
                = Some (JBool (p = JStr ''P1'' \<or> p = JStr ''P2'')))"
proof -
  from assms obtain cs where
    cs: "format_context_for_prompt sv context = Inr cs"
    by (auto simp: process_test_mode_def split: sum.splits)
  show ?thesis
  proof (cases "test_mode_try sv iid (user_prompt q cs)")
    case (Inl e)
    with assms cs have "r = error_response iid (str_of e) (elapsed_inner_ms sv)"
      by (simp add: process_test_mode_def)
    then show ?thesis by (simp add: error_response_entries)
  next
    case (Inr r')
    with assms cs have "r = r'" by (simp add: process_test_mode_def)
    with test_mode_try_entries [OF Inr] show ?thesis by simp
  qed
qed

lemma process_prod_mode_entries:
  assumes "process_prod_mode sv iid q txt chan role loc transcript embeddings context = Inr r"
  shows "map_of r ''status'' = Some (JStr ''workflow_complete'') \<and>
         (\<exists>p. map_of r ''priority'' = Some p)"
  using assms
  by (auto simp: process_prod_mode_def extract_result_def split: sum.splits)

lemma process_incident_entries:
  assumes "force \<or> processed iid = None"
  shows "(\<exists>st. map_of (fst (process_incident sv processed iid q txt chan role loc transcript
                          embeddings force)) ''status'' = Some (JStr st) \<and>
              st \<in> {''workflow_complete'', ''test_complete'', ''error''}) \<and>
         (\<exists>p. map_of (fst (process_incident sv processed iid q txt chan role loc transcript
                          embeddings force)) ''priority'' = Some p)"
proof (cases "process_body sv iid q txt chan role loc transcript embeddings")
  case (Inl e)
  with assms show ?thesis
    by (simp add: process_incident_computed error_response_entries)
next
  case (Inr r)
  show ?thesis
  proof (cases "mode sv = ''test''")
    case True
    with Inr obtain r0 where
      r0: "process_test_mode sv iid q (retrieve_context sv q loc embeddings) = Inr r0"
        "r = dict_set ''mode'' (JStr (mode sv))
               (dict_set ''processing_time_ms'' (JNum (of_int (elapsed_ms sv))) r0)"
      by (auto simp: process_body_def Let_def split: sum.splits)
    from process_test_mode_entries [OF r0(1)] r0(2) Inr assms show ?thesis
      by (auto simp: process_incident_computed map_of_dict_set)
  next
    case False
    with Inr obtain r0 where
      r0: "process_prod_mode sv iid q
             (case txt of None \<Rightarrow> q | Some t \<Rightarrow> if t = [] then q else t)
             chan role loc transcript embeddings (retrieve_context sv q loc embeddings) = Inr r0"
        "r = dict_set ''mode'' (JStr (mode sv))
               (dict_set ''processing_time_ms'' (JNum (of_int (elapsed_ms sv))) r0)"
      by (auto simp: process_body_def Let_def split: sum.splits)
    from process_prod_mode_entries [OF r0(1)] r0(2) Inr assms show ?thesis
      by (auto simp: process_incident_computed map_of_dict_set)
  qed
qed

text \<open>
  C7. Once the query is embedded, each of the four entries of the retrieved context is the
  outcome of its own search alone: the hits when the search succeeds, the empty list when
  it raises (or, for landmarks and images, when the search is not made). When every search
  fails, all four lists are empty, the record handed to the workflow holds four empty
  evidence lists, and a call that computes returns a recommendation with a status and a
  priority.
\<close>

theorem retrieval_fault_tolerant:
  "(embed_text sv q = Inr (qe # rest) \<longrightarrow>
      ctx_docs (retrieve_context sv q loc embeddings) =
        (case hybrid_search sv ''incident_memory'' qe 5 of Inl e \<Rightarrow> [] | Inr hits \<Rightarrow> hits) \<and>
      ctx_sops (retrieve_context sv q loc embeddings) =
        (case hybrid_search sv ''protocols_sops'' qe 5 of Inl e \<Rightarrow> [] | Inr hits \<Rightarrow> hits) \<and>
      ctx_landmarks (retrieve_context sv q loc embeddings) =
        (if loc = None
         then (case hybrid_search sv ''landmark_index'' qe 5 of Inl e \<Rightarrow> [] | Inr hits \<Rightarrow> hits)
         else []) \<and>
      ctx_images (retrieve_context sv q loc embeddings) =
        (case embeddings of
           Some (v # vs) \<Rightarrow>
             (case hybrid_search sv ''visual_evidence'' v 5 of Inl e \<Rightarrow> [] | Inr hits \<Rightarrow> hits)
         | _ \<Rightarrow> [])) \<and>
   ((\<forall>collection v k. \<exists>e. hybrid_search sv collection v k = Inl e) \<longrightarrow>
      retrieve_context sv q loc embeddings =
        \<lparr> ctx_docs = [], ctx_sops = [], ctx_landmarks = [], ctx_images = [] \<rparr> \<and>
      retrieved_docs (prod_initial_state iid q text_in' chan role loc transcript embeddings
                        (retrieve_context sv q loc embeddings)) = Some [] \<and>
      retrieved_sops (prod_initial_state iid q text_in' chan role loc transcript embeddings
                        (retrieve_context sv q loc embeddings)) = Some [] \<and>
      retrieved_landmarks (prod_initial_state iid q text_in' chan role loc transcript embeddings
                        (retrieve_context sv q loc embeddings)) = Some [] \<and>
      retrieved_images (prod_initial_state iid q text_in' chan role loc transcript embeddings
                        (retrieve_context sv q loc embeddings)) = Some [] \<and>
      (force \<or> processed iid = None \<longrightarrow>
         (\<exists>st. map_of (fst (process_incident sv processed iid q text_in chan role loc transcript
                          embeddings force)) ''status'' = Some (JStr st) \<and>
               st \<in> {''workflow_complete'', ''test_complete'', ''error''}) \<and>
         (\<exists>p. map_of (fst (process_incident sv processed iid q text_in chan role loc transcript
                          embeddings force)) ''priority'' = Some p)))"
proof (intro conjI impI)
  assume e: "embed_text sv q = Inr (qe # rest)"
  show "ctx_docs (retrieve_context sv q loc embeddings) =
        (case hybrid_search sv ''incident_memory'' qe 5 of Inl e \<Rightarrow> [] | Inr hits \<Rightarrow> hits)"
    by (simp add: retrieve_context_fields [OF e] attempt_def)
  show "ctx_sops (retrieve_context sv q loc embeddings) =
        (case hybrid_search sv ''protocols_sops'' qe 5 of Inl e \<Rightarrow> [] | Inr hits \<Rightarrow> hits)"
    by (simp add: retrieve_context_fields [OF e] attempt_def)
  show "ctx_landmarks (retrieve_context sv q loc embeddings) =
        (if loc = None
         then (case hybrid_search sv ''landmark_index'' qe 5 of Inl e \<Rightarrow> [] | Inr hits \<Rightarrow> hits)
         else [])"
    by (simp add: retrieve_context_fields [OF e] attempt_def)
  show "ctx_images (retrieve_context sv q loc embeddings) =
        (case embeddings of
           Some (v # vs) \<Rightarrow>
             (case hybrid_search sv ''visual_evidence'' v 5 of Inl e \<Rightarrow> [] | Inr hits \<Rightarrow> hits)
         | _ \<Rightarrow> [])"
    by (simp add: retrieve_context_fields [OF e] attempt_def split: option.splits list.splits)
next
  assume f: "\<forall>collection v k. \<exists>e. hybrid_search sv collection v k = Inl e"
  show c: "retrieve_context sv q loc embeddings =
        \<lparr> ctx_docs = [], ctx_sops = [], ctx_landmarks = [], ctx_images = [] \<rparr>"
    by (rule retrieve_context_all_fail [OF f])
  show "retrieved_docs (prod_initial_state iid q text_in' chan role loc transcript embeddings
                        (retrieve_context sv q loc embeddings)) = Some []"
    by (simp add: c prod_initial_state_def)
  show "retrieved_sops (prod_initial_state iid q text_in' chan role loc transcript embeddings
                        (retrieve_context sv q loc embeddings)) = Some []"
    by (simp add: c prod_initial_state_def)
  show "retrieved_landmarks (prod_initial_state iid q text_in' chan role loc transcript embeddings
                        (retrieve_context sv q loc embeddings)) = Some []"
    by (simp add: c prod_initial_state_def)
  show "retrieved_images (prod_initial_state iid q text_in' chan role loc transcript embeddings
                        (retrieve_context sv q loc embeddings)) = Some []"
    by (simp add: c prod_initial_state_def)
next
  assume "force \<or> processed iid = None"
  from process_incident_entries [of force processed iid sv q text_in chan role loc transcript embeddings, OF this]
  show "\<exists>st. map_of (fst (process_incident sv processed iid q text_in chan role loc transcript
                          embeddings force)) ''status'' = Some (JStr st) \<and>
               st \<in> {''workflow_complete'', ''test_complete'', ''error''}"
    by blast
next
  assume "force \<or> processed iid = None"
  from process_incident_entries [of force processed iid sv q text_in chan role loc transcript embeddings, OF this]
  show "\<exists>p. map_of (fst (process_incident sv processed iid q text_in chan role loc transcript
                          embeddings force)) ''priority'' = Some p"
    by blast
qed

theorem retrieval_fault_tolerant_witness:
  "embed_text search_down_services ''person collapsed'' = Inr ([1, 0] # []) \<and>
   (\<forall>collection v k. \<exists>e. hybrid_search search_down_services collection v k = Inl e) \<and>
   ctx_docs (retrieve_context search_down_services ''person collapsed'' None None) = [] \<and>
   retrieved_docs (prod_initial_state ''INC-1'' ''person collapsed'' ''person collapsed''
      ''web'' ''dispatcher'' None None None
      (retrieve_context search_down_services ''person collapsed'' None None)) = Some [] \<and>
   (\<exists>st. map_of (fst (demo_call search_down_services Map.empty False)) ''status''
           = Some (JStr st) \<and>
         st \<in> {''workflow_complete'', ''test_complete'', ''error''})"
proof -
  have e: "embed_text search_down_services ''person collapsed'' = Inr ([1, 0] # [])"
    by (simp add: search_down_services_def up_services_def)
  have f: "\<forall>collection v k. \<exists>e. hybrid_search search_down_services collection v k = Inl e"
    by (simp add: search_down_services_def up_services_def)
  have c: "False \<or> Map.empty ''INC-1'' = (None :: pydict option)" by simp
  note T = retrieval_fault_tolerant [where sv = search_down_services
      and q = "''person collapsed''"
      and qe = "[1, 0]" and rest = "[]" and loc = None and embeddings = None
      and iid = "''INC-1''" and text_in' = "''person collapsed''" and chan = "''web''"
      and role = "''dispatcher''" and transcript = None and force = False
      and processed = Map.empty and text_in = None]
  from T f have r: "retrieve_context search_down_services ''person collapsed'' None None =
        \<lparr> ctx_docs = [], ctx_sops = [], ctx_landmarks = [], ctx_images = [] \<rparr>"
    by blast
  from T f have d: "retrieved_docs (prod_initial_state ''INC-1'' ''person collapsed''
      ''person collapsed'' ''web'' ''dispatcher'' None None None
      (retrieve_context search_down_services ''person collapsed'' None None)) = Some []"
    by blast
  from T f c have s: "\<exists>st. map_of (fst (process_incident search_down_services Map.empty
        ''INC-1'' ''person collapsed'' None ''web'' ''dispatcher'' None None None False))
        ''status'' = Some (JStr st) \<and>
         st \<in> {''workflow_complete'', ''test_complete'', ''error''}"
    by blast
  from e f r d s show ?thesis by (simp add: demo_call_def)
qed

section \<open>The approval flag of the test mode\<close>

text \<open>
  C10 (as the code has it). Every result of the test mode carries a priority and an
  approval flag, and the flag is true exactly when that priority is \<open>P1\<close> or \<open>P2\<close>;
  so a result with priority \<open>P3\<close>, \<open>P4\<close> or \<open>P5\<close> has the flag false. When the
  completion is parsed to an object and the usage entry of the response is absent or a
  dictionary, the result is the assessment built from it: its priority is the parsed one
  (\<open>P3\<close> when absent) and its flag is true exactly when the parsed priority is \<open>P1\<close>
  or \<open>P2\<close>. When the parsed value is not an object, or the usage entry is not a
  dictionary, building the result raises inside the \<open>try\<close> and the fallback is returned,
  with priority \<open>P2\<close> and the flag true whatever the parsed priority. The metadata added
  by \<open>process_incident\<close> leaves both entries as they are.
\<close>

theorem test_mode_approval:
  "(process_test_mode sv iid q ctx = Inr r \<longrightarrow>
      (\<exists>p. map_of r ''priority'' = Some p \<and>
           map_of r ''requires_human_approval''
             = Some (JBool (p = JStr ''P1'' \<or> p = JStr ''P2'')))) \<and>
   (process_test_mode sv iid q ctx = Inr r \<longrightarrow>
      map_of r ''priority'' \<in> {Some (JStr ''P3''), Some (JStr ''P4''), Some (JStr ''P5'')} \<longrightarrow>
      map_of r ''requires_human_approval'' = Some (JBool False)) \<and>
   (format_context_for_prompt sv ctx = Inr cs \<longrightarrow>
    llm_generate sv (user_prompt q cs) = Inr response \<longrightarrow>
    map_of response ''content'' = Some (JStr content) \<longrightarrow>
    json_loads sv content = Inr (JObj result) \<longrightarrow>
    as_dict (getd (map_of response ''usage'') (JObj [])) = Inr usage \<longrightarrow>
      (\<exists>r'. process_test_mode sv iid q ctx = Inr r' \<and>
         map_of r' ''status'' = Some (JStr ''test_complete'') \<and>
         map_of r' ''priority'' = Some (getd (map_of result ''priority'') (JStr ''P3'')) \<and>
         map_of r' ''requires_human_approval''
           = Some (JBool (map_of result ''priority'' = Some (JStr ''P1'') \<or>
                          map_of result ''priority'' = Some (JStr ''P2''))))) \<and>
   (mode sv = ''test'' \<longrightarrow>
    process_body sv iid q text_in chan role loc transcript embeddings = Inr rb \<longrightarrow>
      (\<exists>p. map_of rb ''priority'' = Some p \<and>
           map_of rb ''requires_human_approval''
             = Some (JBool (p = JStr ''P1'' \<or> p = JStr ''P2'')))) \<and>
   (format_context_for_prompt sv ctx = Inr cs \<longrightarrow>
    llm_generate sv (user_prompt q cs) = Inr response \<longrightarrow>
    map_of response ''content'' = Some (JStr content) \<longrightarrow>
    json_loads sv content = Inr parsed \<longrightarrow>
    as_dict parsed = Inl e \<longrightarrow>
      process_test_mode sv iid q ctx
        = Inr (error_response iid (str_of e) (elapsed_inner_ms sv))) \<and>
   (format_context_for_prompt sv ctx = Inr cs \<longrightarrow>
    llm_generate sv (user_prompt q cs) = Inr response \<longrightarrow>
    map_of response ''content'' = Some (JStr content) \<longrightarrow>
    json_loads sv content = Inr (JObj result) \<longrightarrow>
    as_dict (getd (map_of response ''usage'') (JObj [])) = Inl e \<longrightarrow>
      process_test_mode sv iid q ctx
        = Inr (error_response iid (str_of e) (elapsed_inner_ms sv))) \<and>
   map_of (error_response iid err ms) ''priority'' = Some (JStr ''P2'') \<and>
   map_of (error_response iid err ms) ''requires_human_approval'' = Some (JBool True)"
proof (intro conjI impI)
  assume "process_test_mode sv iid q ctx = Inr r"
  from process_test_mode_entries [OF this]
  show "\<exists>p. map_of r ''priority'' = Some p \<and>
           map_of r ''requires_human_approval''
             = Some (JBool (p = JStr ''P1'' \<or> p = JStr ''P2''))" by blast
next
  assume "process_test_mode sv iid q ctx = Inr r"
    and "map_of r ''priority'' \<in> {Some (JStr ''P3''), Some (JStr ''P4''), Some (JStr ''P5'')}"
  with process_test_mode_entries [of sv iid q ctx r]
  show "map_of r ''requires_human_approval'' = Some (JBool False)" by auto
next
  assume a: "format_context_for_prompt sv ctx = Inr cs"
    "llm_generate sv (user_prompt q cs) = Inr response"
    "map_of response ''content'' = Some (JStr content)"
    "json_loads sv content = Inr (JObj result)"
    "as_dict (getd (map_of response ''usage'') (JObj [])) = Inr usage"
  have "(getd (map_of result ''priority'') JNull \<in> set [JStr ''P1'', JStr ''P2'']) =
        (map_of result ''priority'' = Some (JStr ''P1'') \<or>
         map_of result ''priority'' = Some (JStr ''P2''))"
    by (cases "map_of result ''priority''") (auto simp: getd_def)
  with a show "\<exists>r'. process_test_mode sv iid q ctx = Inr r' \<and>
         map_of r' ''status'' = Some (JStr ''test_complete'') \<and>
         map_of r' ''priority'' = Some (getd (map_of result ''priority'') (JStr ''P3'')) \<and>
         map_of r' ''requires_human_approval''
           = Some (JBool (map_of result ''priority'' = Some (JStr ''P1'') \<or>
                          map_of result ''priority'' = Some (JStr ''P2'')))"
    by (simp add: process_test_mode_def test_mode_try_def as_dict_def)
next
  assume m: "mode sv = ''test''"
    and b: "process_body sv iid q text_in chan role loc transcript embeddings = Inr rb"
  from m b obtain r0 where
    r0: "process_test_mode sv iid q (retrieve_context sv q loc embeddings) = Inr r0"
      "rb = dict_set ''mode'' (JStr (mode sv))
              (dict_set ''processing_time_ms'' (JNum (of_int (elapsed_ms sv))) r0)"
    by (auto simp: process_body_def Let_def split: sum.splits)
  from process_test_mode_entries [OF r0(1)] r0(2)
  show "\<exists>p. map_of rb ''priority'' = Some p \<and>
           map_of rb ''requires_human_approval''
             = Some (JBool (p = JStr ''P1'' \<or> p = JStr ''P2''))"
    by (auto simp: map_of_dict_set)
next
  assume "format_context_for_prompt sv ctx = Inr cs"
    "llm_generate sv (user_prompt q cs) = Inr response"
    "map_of response ''content'' = Some (JStr content)"
    "json_loads sv content = Inr parsed"
    "as_dict parsed = Inl e"
  then show "process_test_mode sv iid q ctx
        = Inr (error_response iid (str_of e) (elapsed_inner_ms sv))"
    by (simp add: process_test_mode_def test_mode_try_def)
next
  assume "format_context_for_prompt sv ctx = Inr cs"
    "llm_generate sv (user_prompt q cs) = Inr response"
    "map_of response ''content'' = Some (JStr content)"
    "json_loads sv content = Inr (JObj result)"
    "as_dict (getd (map_of response ''usage'') (JObj [])) = Inl e"
  then show "process_test_mode sv iid q ctx
        = Inr (error_response iid (str_of e) (elapsed_inner_ms sv))"
    by (simp add: process_test_mode_def test_mode_try_def as_dict_def)
next
  show "map_of (error_response iid err ms) ''priority'' = Some (JStr ''P2'')"
    by (simp add: error_response_def)
next
  show "map_of (error_response iid err ms) ''requires_human_approval'' = Some (JBool True)"
    by (simp add: error_response_def)
qed

lemma test_services_facts:
  "format_context_for_prompt test_services no_context = Inr ''No relevant context found.''"
  "llm_generate test_services
     (user_prompt ''loud music next door'' ''No relevant context found.'')
   = Inr [ (''content'', JStr test_content),
           (''usage'', JObj [(''total_tokens'', JNum 120)]),
           (''model'', JStr ''large'') ]"
  "map_of [ (''content'', JStr test_content),
            (''usage'', JObj [(''total_tokens'', JNum 120)]),
            (''model'', JStr ''large'') ] ''content'' = Some (JStr test_content)"
  "json_loads test_services test_content
     = Inr (JObj [(''priority'', JStr ''P4''), (''incident_type'', JStr ''Noise_Complaint'')])"
  "as_dict (getd (map_of [ (''content'', JStr test_content),
                    (''usage'', JObj [(''total_tokens'', JNum 120)]),
                    (''model'', JStr ''large'') ] ''usage'') (JObj []))
           = Inr [(''total_tokens'', JNum 120)]"
  by (simp_all add: format_context_for_prompt_def no_context_def test_services_def
        as_dict_def getd_def)

lemma null_usage_facts:
  "format_context_for_prompt null_usage_services no_context
     = Inr ''No relevant context found.''"
  "llm_generate null_usage_services
     (user_prompt ''loud music next door'' ''No relevant context found.'')
   = Inr [ (''content'', JStr test_content), (''usage'', JNull), (''model'', JStr ''large'') ]"
  "map_of [ (''content'', JStr test_content), (''usage'', JNull), (''model'', JStr ''large'') ]
     ''content'' = Some (JStr test_content)"
  "json_loads null_usage_services test_content
     = Inr (JObj [(''priority'', JStr ''P4''), (''incident_type'', JStr ''Noise_Complaint'')])"
  "as_dict (getd (map_of [ (''content'', JStr test_content), (''usage'', JNull),
                           (''model'', JStr ''large'') ] ''usage'') (JObj []))
           = Inl (Error ''AttributeError'')"
  by (simp_all add: format_context_for_prompt_def no_context_def null_usage_services_def
        test_services_def as_dict_def getd_def)

lemma null_usage_result:
  "process_test_mode null_usage_services ''INC-2'' ''loud music next door'' no_context
     = Inr (error_response ''INC-2'' ''AttributeError'' 0)"
  using null_usage_facts
  by (simp add: process_test_mode_def test_mode_try_def as_dict_def null_usage_services_def
        test_services_def up_services_def)

theorem test_mode_approval_witness:
  "format_context_for_prompt test_services no_context = Inr ''No relevant context found.'' \<and>
   json_loads test_services test_content
     = Inr (JObj [(''priority'', JStr ''P4''), (''incident_type'', JStr ''Noise_Complaint'')]) \<and>
   (\<exists>r. process_test_mode test_services ''INC-2'' ''loud music next door'' no_context = Inr r \<and>
        map_of r ''status'' = Some (JStr ''test_complete'') \<and>
        map_of r ''priority'' = Some (JStr ''P4'') \<and>
        map_of r ''requires_human_approval'' = Some (JBool False)) \<and>
   as_dict (getd (map_of [ (''content'', JStr test_content), (''usage'', JNull),
                           (''model'', JStr ''large'') ] ''usage'') (JObj []))
     = Inl (Error ''AttributeError'') \<and>
   process_test_mode null_usage_services ''INC-2'' ''loud music next door'' no_context
     = Inr (error_response ''INC-2'' ''AttributeError''
              (elapsed_inner_ms null_usage_services))"
proof -
  note T = test_mode_approval [where sv = test_services and iid = "''INC-2''"
      and q = "''loud music next door''" and ctx = no_context
      and cs = "''No relevant context found.''", THEN conjunct2, THEN conjunct2,
      THEN conjunct1, rule_format, OF test_services_facts]
  note N = test_mode_approval [where sv = null_usage_services and iid = "''INC-2''"
      and q = "''loud music next door''" and ctx = no_context
      and cs = "''No relevant context found.''", THEN conjunct2, THEN conjunct2,
      THEN conjunct2, THEN conjunct2, THEN conjunct2, THEN conjunct1, rule_format,
      OF null_usage_facts]
  from T N test_services_facts(1,4) null_usage_facts(5) show ?thesis
    by (simp add: getd_def)
qed

text \<open>
  The claim as stated fails: the completion is parsed, to an object with priority \<open>P4\<close>,
  but the usage entry of the response is null, so reading the token count raises and the
  fallback is returned, with the approval flag true.
\<close>

theorem test_mode_approval_counterexample:
  "json_loads null_usage_services test_content
     = Inr (JObj [(''priority'', JStr ''P4''), (''incident_type'', JStr ''Noise_Complaint'')]) \<and>
   process_test_mode null_usage_services ''INC-2'' ''loud music next door'' no_context
     = Inr (error_response ''INC-2'' ''AttributeError'' 0) \<and>
   map_of (error_response ''INC-2'' ''AttributeError'' 0) ''requires_human_approval''
     = Some (JBool True) \<and>
   map_of (error_response ''INC-2'' ''AttributeError'' 0) ''priority'' = Some (JStr ''P2'')"
  by (simp add: null_usage_facts(4) null_usage_result error_response_def)

end
